theory Spec2Isabelle
  imports Main "HOL-Library.Sublist"
begin

section \<open>The comment-check cron job of InstaAutoDM (index.js)\<close>

text \<open>
  The job is one sequential pass: it loads the active automations, obtains a valid token
  for each automation's account, fetches the comments of the automation's posts, and for
  every comment decides whether to reply and to send a direct message, writing a ledger
  of what it did.

  The embedding is state passing over a \<open>world\<close>: the five MongoDB collections the job
  touches, a counter of the observations made of the outside so far (\<open>tick\<close>), and the
  \<open>trace\<close> of every remote request and every database write in the order the job issues
  them. Everything the job cannot decide by itself is read from an \<open>env\<close>: the clock,
  fresh object ids, and the answer of the remote API to each request. Each of these is
  indexed by the tick at which it is consulted, so the same request may be answered
  differently at different moments of a run.

  Modelling assumptions, all on the side of the collaborators: once \<open>client.connect()\<close>
  has succeeded the database operations do not raise; documents have the field types the
  job reads them at (an automation has a string \<open>triggerKeyword\<close> and \<open>message\<close>, a
  fetched comment has a string \<open>text\<close>); a time value is a
  number of milliseconds since the epoch, an integer, and the clock returns time values
  in the range of a \<open>Date\<close>; the lifetime returned by a token refresh is an integer
  number of seconds.
\<close>

subsection \<open>Documents\<close>

type_synonym ident = string
type_synonym token = string
type_synonym time = int

text \<open>
  A JavaScript \<open>Date\<close>: a time value, or the invalid date (time value \<open>NaN\<close>).
  \<open>TimeClip\<close> is the operation of that name of ECMAScript: a time value more than
  8.64e15 milliseconds from the epoch is not a date.
\<close>

datatype date = Date time | Invalid_Date

definition TimeClip :: "int \<Rightarrow> date" where
  "TimeClip t = (if 8640000000000000 < \<bar>t\<bar> then Invalid_Date else Date t)"

record account =
  acc_id :: ident
  acc_instagramId :: ident
  accessToken :: token
  expiresAt :: "date option"
  lastTokenRefresh :: "time option"
  acc_username :: string

record automation =
  a_id :: ident
  instagramAccountId :: ident
  postId :: "ident option"
  active :: bool
  triggerKeyword :: string
  lastChecked :: "time option"
  rateLimit :: "int option"
  replyToComments :: bool
  commentReply :: "string option"
  useOpeningMessage :: bool
  openingMessage :: "string option"
  buttonText :: "string option"
  message :: string
  addBranding :: bool
  brandingMessage :: "string option"
  totalDMsSent :: int
  lastTriggered :: "time option"

record post =
  post_id :: ident
  post_instagramAccountId :: ident
  post_instagramId :: ident

text \<open>A comment as the Graph API returns it, and as \<open>getPostComments\<close> hands it on.\<close>

record raw_comment =
  raw_id :: ident
  raw_text :: string
  raw_username :: "string option"
  raw_from_username :: "string option"
  raw_timestamp :: string

record comment =
  c_id :: ident
  c_text :: string
  c_username :: "string option"
  c_timestamp :: string

text \<open>What a \<open>catch\<close> block of the job can receive, kept as a value (\<open>String(error)\<close>).\<close>

datatype error =
    Fetch_threw string
  | Failed_to_reply string
  | Failed_to_find_user string
  | User_not_found "string option"
  | Failed_to_send string

datatype dm_type = Opening | Direct
datatype status = Sent | Failed

record directMessage =
  dm_id :: ident
  dm_automationId :: ident
  dm_recipientUsername :: "string option"
  dm_commentId :: ident
  dm_message :: "string option"
  dm_type :: "dm_type option"
  dm_status :: status
  dm_error :: "error option"
  dm_sentAt :: time

record commentReply_doc =
  cr_id :: ident
  cr_automationId :: ident
  cr_commentId :: ident
  cr_username :: "string option"
  cr_reply :: "string option"
  cr_status :: status
  cr_sentAt :: time

subsection \<open>The outside: remote API, clock, object ids\<close>

text \<open>
  The outcome of an awaited \<open>fetch\<close> as the job distinguishes it: the call, or reading
  its body, raised; the response was not \<open>ok\<close> (with the message the job extracts from
  it); the response was \<open>ok\<close> with a payload.
\<close>

datatype 'a response = Threw string | Not_ok string | Is_ok 'a

datatype event =
    Get_me token
  | Refresh_access_token token
  | Get_comments token ident time
  | Post_reply token ident string
  | Username_search token "string option"
  | Post_message token ident ident string "(string \<times> string) option"
  | Update_account ident token date time
  | Insert_directMessage directMessage
  | Insert_commentReply commentReply_doc
  | Update_automation_stats ident time
  | Update_lastChecked ident time

text \<open>
  The outside of one run. \<open>connect_ok\<close> says whether \<open>client.connect()\<close> succeeds;
  \<open>clock\<close> and \<open>newObjectId\<close> answer \<open>new Date()\<close> and \<open>new ObjectId().toString()\<close>; the
  \<open>api\<close> fields answer the six kinds of request. \<open>toLowerCase\<close> is the string method of
  that name: its case tables belong to the JavaScript engine, not to the job, so it is a
  parameter and the properties below hold for any such function. \<open>localTZA t isUTC\<close> is
  the offset of the host's local time zone in milliseconds, as ECMAScript's \<open>LocalTZA\<close>:
  at the time value \<open>t\<close> when \<open>isUTC\<close> holds, at the local time \<open>t\<close> otherwise.
\<close>

record env =
  connect_ok :: bool
  clock :: "nat \<Rightarrow> time"
  newObjectId :: "nat \<Rightarrow> ident"
  toLowerCase :: "string \<Rightarrow> string"
  localTZA :: "time \<Rightarrow> bool \<Rightarrow> int"
  api_me :: "nat \<Rightarrow> token \<Rightarrow> unit response"
  api_refresh :: "nat \<Rightarrow> token \<Rightarrow> (token \<times> int) response"
  api_comments :: "nat \<Rightarrow> token \<Rightarrow> ident \<Rightarrow> time \<Rightarrow> raw_comment list response"
  api_reply :: "nat \<Rightarrow> token \<Rightarrow> ident \<Rightarrow> string \<Rightarrow> unit response"
  api_username_search :: "nat \<Rightarrow> token \<Rightarrow> string option \<Rightarrow> ident list option response"
  api_messages ::
    "nat \<Rightarrow> token \<Rightarrow> ident \<Rightarrow> ident \<Rightarrow> string \<Rightarrow> (string \<times> string) option \<Rightarrow> unit response"

record world =
  automations :: "automation list"
  instagramAccounts :: "account list"
  posts :: "post list"
  directMessages :: "directMessage list"
  commentReplies :: "commentReply_doc list"
  tick :: nat
  trace :: "event list"

definition observe :: "world \<Rightarrow> world" where
  "observe w = w\<lparr>tick := Suc (tick w)\<rparr>"

definition emit :: "event \<Rightarrow> world \<Rightarrow> world" where
  "emit e w = w\<lparr>trace := trace w @ [e]\<rparr>"

definition new_Date :: "env \<Rightarrow> world \<Rightarrow> time \<times> world" where
  "new_Date env w = (clock env (tick w), observe w)"

definition new_ObjectId :: "env \<Rightarrow> world \<Rightarrow> ident \<times> world" where
  "new_ObjectId env w = (newObjectId env (tick w), observe w)"

subsection \<open>JavaScript values\<close>

text \<open>
  \<open>d.setSeconds(d.getSeconds() + n)\<close> on a date of time value \<open>t\<close>, by the algorithm of
  ECMAScript. Both methods work on local time: \<open>getSeconds\<close> is the seconds field of
  \<open>LocalTime(t) = t + LocalTZA(t, true)\<close>, and \<open>setSeconds(s)\<close> rebuilds the local date from
  the day, hour, minute and millisecond fields of \<open>LocalTime(t)\<close> with \<open>s\<close> seconds, which is
  \<open>LocalTime(t) + 1000 * n\<close> here, and stores \<open>TimeClip(UTC(date))\<close> with
  \<open>UTC(date) = date - LocalTZA(date, false)\<close>.
\<close>

definition setSeconds_plus :: "env \<Rightarrow> time \<Rightarrow> int \<Rightarrow> date" where
  "setSeconds_plus env t n =
     (let local = t + localTZA env t True;
          date = local + 1000 * n
      in TimeClip (date - localTZA env date False))"

text \<open>\<open>x || d\<close> on an optional string: an absent and an empty string are both falsy.\<close>

definition or_else :: "string option \<Rightarrow> string \<Rightarrow> string" where
  "or_else x d = (case x of None \<Rightarrow> d | Some s \<Rightarrow> if s = [] then d else s)"

definition falsy :: "string option \<Rightarrow> bool" where
  "falsy x = (case x of None \<Rightarrow> True | Some s \<Rightarrow> s = [])"

text \<open>
  \<open>String.prototype.includes\<close>: \<open>includes_str ys xs\<close> is \<open>ys.includes(xs)\<close>, the
  argument occurs in the receiver as a contiguous run.
\<close>

fun starts_with :: "'a list \<Rightarrow> 'a list \<Rightarrow> bool" where
  "starts_with ys [] = True"
| "starts_with [] (x # xs) = False"
| "starts_with (y # ys) (x # xs) = (y = x \<and> starts_with ys xs)"

fun includes_str :: "'a list \<Rightarrow> 'a list \<Rightarrow> bool" where
  "includes_str [] xs = (xs = [])"
| "includes_str (y # ys) xs = (starts_with (y # ys) xs \<or> includes_str ys xs)"

subsection \<open>Database operations\<close>

text \<open>\<open>updateOne\<close> changes the first document that matches the filter, if there is one.\<close>

fun updateOne :: "('a \<Rightarrow> bool) \<Rightarrow> ('a \<Rightarrow> 'a) \<Rightarrow> 'a list \<Rightarrow> 'a list" where
  "updateOne P f [] = []"
| "updateOne P f (x # xs) = (if P x then f x # xs else x # updateOne P f xs)"

definition update_account :: "ident \<Rightarrow> token \<Rightarrow> date \<Rightarrow> time \<Rightarrow> world \<Rightarrow> world" where
  "update_account i tok expiry refreshed w =
     emit (Update_account i tok expiry refreshed)
       (w\<lparr>instagramAccounts :=
            updateOne (\<lambda>a. acc_id a = i)
              (\<lambda>a. a\<lparr>accessToken := tok, expiresAt := Some expiry,
                      lastTokenRefresh := Some refreshed\<rparr>)
              (instagramAccounts w)\<rparr>)"

definition insert_directMessage :: "directMessage \<Rightarrow> world \<Rightarrow> world" where
  "insert_directMessage r w =
     emit (Insert_directMessage r) (w\<lparr>directMessages := directMessages w @ [r]\<rparr>)"

definition insert_commentReply :: "commentReply_doc \<Rightarrow> world \<Rightarrow> world" where
  "insert_commentReply r w =
     emit (Insert_commentReply r) (w\<lparr>commentReplies := commentReplies w @ [r]\<rparr>)"

definition update_automation_stats :: "ident \<Rightarrow> time \<Rightarrow> world \<Rightarrow> world" where
  "update_automation_stats i t w =
     emit (Update_automation_stats i t)
       (w\<lparr>automations :=
            updateOne (\<lambda>a. a_id a = i)
              (\<lambda>a. a\<lparr>totalDMsSent := totalDMsSent a + 1, lastTriggered := Some t\<rparr>)
              (automations w)\<rparr>)"

definition update_lastChecked :: "ident \<Rightarrow> time \<Rightarrow> world \<Rightarrow> world" where
  "update_lastChecked i t w =
     emit (Update_lastChecked i t)
       (w\<lparr>automations :=
            updateOne (\<lambda>a. a_id a = i) (\<lambda>a. a\<lparr>lastChecked := Some t\<rparr>) (automations w)\<rparr>)"

subsection \<open>Token handling\<close>

text \<open>\<open>refreshInstagramToken\<close>: \<open>null\<close> when the exchange is refused or raises.\<close>

definition refreshInstagramToken :: "env \<Rightarrow> token \<Rightarrow> world \<Rightarrow> (token \<times> int) option \<times> world" where
  "refreshInstagramToken env tok w =
     (let w1 = emit (Refresh_access_token tok) (observe w) in
      case api_refresh env (tick w) tok of
        Threw e \<Rightarrow> (None, w1)
      | Not_ok m \<Rightarrow> (None, w1)
      | Is_ok d \<Rightarrow> (Some d, w1))"

text \<open>
  \<open>getValidTokenForAccount\<close>: probe the stored token; if the probe is not \<open>ok\<close> or
  raises, refresh; on a refresh write the new token, its expiry and the refresh time.
\<close>

definition getValidTokenForAccount :: "env \<Rightarrow> ident \<Rightarrow> world \<Rightarrow> token option \<times> world" where
  "getValidTokenForAccount env accountId w =
     (case find (\<lambda>a. acc_id a = accountId) (instagramAccounts w) of
        None \<Rightarrow> (None, w)
      | Some account \<Rightarrow>
          (let w1 = emit (Get_me (accessToken account)) (observe w) in
           case api_me env (tick w) (accessToken account) of
             Is_ok u \<Rightarrow> (Some (accessToken account), w1)
           | _ \<Rightarrow>
              (case refreshInstagramToken env (accessToken account) w1 of
                 (None, w2) \<Rightarrow> (None, w2)
               | (Some (newToken, expiresIn), w2) \<Rightarrow>
                   (case new_Date env w2 of (d1, w3) \<Rightarrow>
                    case new_Date env w3 of (d2, w4) \<Rightarrow>
                      (Some newToken,
                       update_account (acc_id account) newToken
                         (setSeconds_plus env d1 expiresIn) d2 w4)))))"

subsection \<open>Remote calls of the dispatch\<close>

definition of_raw :: "raw_comment \<Rightarrow> comment" where
  "of_raw c =
     \<lparr>c_id = raw_id c, c_text = raw_text c,
      c_username = (if falsy (raw_username c) then raw_from_username c else raw_username c),
      c_timestamp = raw_timestamp c\<rparr>"

text \<open>\<open>getPostComments\<close>: every failure is caught and becomes the empty array.\<close>

definition getPostComments :: "env \<Rightarrow> token \<Rightarrow> ident \<Rightarrow> time \<Rightarrow> world \<Rightarrow> comment list \<times> world" where
  "getPostComments env tok pid since w =
     (let w1 = emit (Get_comments tok pid since) (observe w) in
      case api_comments env (tick w) tok pid since of
        Threw e \<Rightarrow> ([], w1)
      | Not_ok m \<Rightarrow> ([], w1)
      | Is_ok d \<Rightarrow> (map of_raw d, w1))"

text \<open>\<open>replyToComment\<close> logs and rethrows.\<close>

definition replyToComment :: "env \<Rightarrow> token \<Rightarrow> ident \<Rightarrow> string \<Rightarrow> world \<Rightarrow> (error + unit) \<times> world" where
  "replyToComment env tok commentId replyText w =
     (let w1 = emit (Post_reply tok commentId replyText) (observe w) in
      case api_reply env (tick w) tok commentId replyText of
        Threw e \<Rightarrow> (Inl (Fetch_threw e), w1)
      | Not_ok m \<Rightarrow> (Inl (Failed_to_reply m), w1)
      | Is_ok u \<Rightarrow> (Inr (), w1))"

text \<open>
  The first half of \<open>sendDirectMessage\<close> and of \<open>sendDirectMessageWithButton\<close> (the two
  functions repeat it word for word): the user id is looked up from the handle.
\<close>

definition username_search :: "env \<Rightarrow> token \<Rightarrow> string option \<Rightarrow> world \<Rightarrow> (error + ident) \<times> world" where
  "username_search env tok recipientUsername w =
     (let w1 = emit (Username_search tok recipientUsername) (observe w) in
      case api_username_search env (tick w) tok recipientUsername of
        Threw e \<Rightarrow> (Inl (Fetch_threw e), w1)
      | Not_ok m \<Rightarrow> (Inl (Failed_to_find_user m), w1)
      | Is_ok None \<Rightarrow> (Inl (User_not_found recipientUsername), w1)
      | Is_ok (Some []) \<Rightarrow> (Inl (User_not_found recipientUsername), w1)
      | Is_ok (Some (recipientId # rest)) \<Rightarrow> (Inr recipientId, w1))"

definition post_message ::
  "env \<Rightarrow> token \<Rightarrow> ident \<Rightarrow> ident \<Rightarrow> string \<Rightarrow> (string \<times> string) option \<Rightarrow> world
    \<Rightarrow> (error + unit) \<times> world" where
  "post_message env tok instagramAccountId' recipientId msg quick_reply w =
     (let w1 = emit (Post_message tok instagramAccountId' recipientId msg quick_reply) (observe w) in
      case api_messages env (tick w) tok instagramAccountId' recipientId msg quick_reply of
        Threw e \<Rightarrow> (Inl (Fetch_threw e), w1)
      | Not_ok m \<Rightarrow> (Inl (Failed_to_send m), w1)
      | Is_ok u \<Rightarrow> (Inr (), w1))"

definition sendDirectMessage ::
  "env \<Rightarrow> token \<Rightarrow> ident \<Rightarrow> string option \<Rightarrow> string \<Rightarrow> world \<Rightarrow> (error + unit) \<times> world" where
  "sendDirectMessage env tok instagramAccountId' recipientUsername msg w =
     (case username_search env tok recipientUsername w of
        (Inl e, w1) \<Rightarrow> (Inl e, w1)
      | (Inr recipientId, w1) \<Rightarrow>
          post_message env tok instagramAccountId' recipientId msg None w1)"

definition sendDirectMessageWithButton ::
  "env \<Rightarrow> token \<Rightarrow> ident \<Rightarrow> string option \<Rightarrow> string \<Rightarrow> string \<Rightarrow> ident \<Rightarrow> world
    \<Rightarrow> (error + unit) \<times> world" where
  "sendDirectMessageWithButton env tok instagramAccountId' recipientUsername msg buttonText'
       automationId w =
     (case username_search env tok recipientUsername w of
        (Inl e, w1) \<Rightarrow> (Inl e, w1)
      | (Inr recipientId, w1) \<Rightarrow>
          post_message env tok instagramAccountId' recipientId msg
            (Some (buttonText', ''SEND_CONTENT_'' @ automationId)) w1)"

subsection \<open>Default texts\<close>

text \<open>Strings are UTF-8 bytes; the characters outside ASCII are written as their bytes.\<close>

definition default_commentReply :: string where
  "default_commentReply = ''Thanks! Please check your DMs.''"

definition default_openingMessage :: string where
  "default_openingMessage =
     ''Hey there! I'' @ [CHR 0x27] @ ''m so happy you'' @ [CHR 0x27]
       @ ''re here, thanks so much for your interest ''
       @ [CHR 0xF0, CHR 0x9F, CHR 0x98, CHR 0x8A, CHR 0x0A, CHR 0x0A]
       @ ''Click below and I'' @ [CHR 0x27] @ ''ll send you the link in just a sec ''
       @ [CHR 0xE2, CHR 0x9C, CHR 0xA8]"

definition default_buttonText :: string where
  "default_buttonText = ''Send me the link''"

definition default_brandingMessage :: string where
  "default_brandingMessage =
     [CHR 0xE2, CHR 0x9A, CHR 0xA1] @ '' Sent via ChatAutoDM '' @ [CHR 0xE2, CHR 0x80, CHR 0x94]
       @ '' grow your DMs on autopilot''"

subsection \<open>The decisions taken for one comment\<close>

text \<open>Lines 205 to 207: the trigger.\<close>

definition triggerMatched :: "env \<Rightarrow> automation \<Rightarrow> comment \<Rightarrow> bool" where
  "triggerMatched env automation cmt =
     (triggerKeyword automation = ''any'' \<or>
      includes_str (toLowerCase env (c_text cmt)) (toLowerCase env (triggerKeyword automation)))"

text \<open>Lines 216 to 219: the ledger entry, of any status, for this automation and handle.\<close>

definition existingDM :: "automation \<Rightarrow> comment \<Rightarrow> world \<Rightarrow> directMessage option" where
  "existingDM automation cmt w =
     find (\<lambda>r. dm_automationId r = a_id automation \<and> dm_recipientUsername r = c_username cmt)
       (directMessages w)"

text \<open>Lines 230 to 234: the count of sent entries of this automation since \<open>oneHourAgo\<close>.\<close>

definition recentDMs :: "automation \<Rightarrow> time \<Rightarrow> world \<Rightarrow> nat" where
  "recentDMs automation oneHourAgo w =
     length (filter (\<lambda>r. dm_automationId r = a_id automation \<and> oneHourAgo \<le> dm_sentAt r
                          \<and> dm_status r = Sent) (directMessages w))"

text \<open>Line 236: \<open>automation.rateLimit || 10\<close>; an absent limit and the number 0 are falsy.\<close>

definition rateLimit_or_10 :: "automation \<Rightarrow> int" where
  "rateLimit_or_10 automation =
     (case rateLimit automation of None \<Rightarrow> 10 | Some n \<Rightarrow> if n = 0 then 10 else n)"

subsection \<open>Reply and direct message\<close>

text \<open>
  Lines 242 to 265. A reply that raises is logged and dropped; a reply that went out is
  recorded with the automation's own \<open>commentReply\<close> field.
\<close>

definition reply_step :: "env \<Rightarrow> automation \<Rightarrow> account \<Rightarrow> comment \<Rightarrow> world \<Rightarrow> world" where
  "reply_step env automation instagramAccount cmt w =
     (case replyToComment env (accessToken instagramAccount) (c_id cmt)
             (or_else (commentReply automation) default_commentReply) w of
        (Inl e, w1) \<Rightarrow> w1
      | (Inr u, w1) \<Rightarrow>
          (case new_ObjectId env w1 of (oid, w2) \<Rightarrow>
           case new_Date env w2 of (now, w3) \<Rightarrow>
             insert_commentReply
               \<lparr>cr_id = oid, cr_automationId = a_id automation, cr_commentId = c_id cmt,
                cr_username = c_username cmt, cr_reply = commentReply automation,
                cr_status = Sent, cr_sentAt = now\<rparr> w3))"

text \<open>Lines 341 to 350: the ledger entry written by the \<open>catch\<close> of the send.\<close>

definition log_failed :: "env \<Rightarrow> automation \<Rightarrow> comment \<Rightarrow> error \<Rightarrow> world \<Rightarrow> world" where
  "log_failed env automation cmt e w =
     (case new_ObjectId env w of (oid, w1) \<Rightarrow>
      case new_Date env w1 of (now, w2) \<Rightarrow>
        insert_directMessage
          \<lparr>dm_id = oid, dm_automationId = a_id automation,
           dm_recipientUsername = c_username cmt, dm_commentId = c_id cmt,
           dm_message = (if useOpeningMessage automation then openingMessage automation
                         else Some (message automation)),
           dm_type = None, dm_status = Failed, dm_error = Some e, dm_sentAt = now\<rparr> w2)"

text \<open>Lines 287 to 296 and 313 to 322, then 325 to 334: the entry of a send that went out.\<close>

definition log_sent ::
  "env \<Rightarrow> automation \<Rightarrow> comment \<Rightarrow> string \<Rightarrow> dm_type \<Rightarrow> world \<Rightarrow> world" where
  "log_sent env automation cmt msg kind w =
     (case new_ObjectId env w of (oid, w1) \<Rightarrow>
      case new_Date env w1 of (now, w2) \<Rightarrow>
        insert_directMessage
          \<lparr>dm_id = oid, dm_automationId = a_id automation,
           dm_recipientUsername = c_username cmt, dm_commentId = c_id cmt,
           dm_message = Some msg, dm_type = Some kind, dm_status = Sent,
           dm_error = None, dm_sentAt = now\<rparr> w2)"

definition bump_stats :: "env \<Rightarrow> automation \<Rightarrow> world \<Rightarrow> world" where
  "bump_stats env automation w =
     (case new_Date env w of (now, w1) \<Rightarrow> update_automation_stats (a_id automation) now w1)"

text \<open>
  Lines 268 to 351. The state of the loop is the local \<open>totalSent\<close> and the world; the
  \<open>try\<close> block either completes (entry \<open>sent\<close>, counter and statistics bumped) or lands in
  the \<open>catch\<close> (entry \<open>failed\<close>).
\<close>

definition dm_step ::
  "env \<Rightarrow> automation \<Rightarrow> account \<Rightarrow> comment \<Rightarrow> nat \<times> world \<Rightarrow> nat \<times> world" where
  "dm_step env automation instagramAccount cmt s =
     (case s of (totalSent, w) \<Rightarrow>
      if useOpeningMessage automation then
        (let openingMessage' = or_else (openingMessage automation) default_openingMessage;
             buttonText' = or_else (buttonText automation) default_buttonText
         in case sendDirectMessageWithButton env (accessToken instagramAccount)
                   (acc_instagramId instagramAccount) (c_username cmt) openingMessage'
                   buttonText' (a_id automation) w of
              (Inl e, w1) \<Rightarrow> (totalSent, log_failed env automation cmt e w1)
            | (Inr u, w1) \<Rightarrow>
                (Suc totalSent,
                 bump_stats env automation (log_sent env automation cmt openingMessage' Opening w1)))
      else
        (let fullMessage =
               (if addBranding automation
                then message automation @ [CHR 0x0A, CHR 0x0A]
                       @ or_else (brandingMessage automation) default_brandingMessage
                else message automation)
         in case sendDirectMessage env (accessToken instagramAccount)
                   (acc_instagramId instagramAccount) (c_username cmt) fullMessage w of
              (Inl e, w1) \<Rightarrow> (totalSent, log_failed env automation cmt e w1)
            | (Inr u, w1) \<Rightarrow>
                (Suc totalSent,
                 bump_stats env automation (log_sent env automation cmt fullMessage Direct w1))))"

subsection \<open>One comment, one post, one automation, one run\<close>

text \<open>The body of the loop of lines 203 to 352.\<close>

definition process_comment ::
  "env \<Rightarrow> automation \<Rightarrow> account \<Rightarrow> comment \<Rightarrow> nat \<times> world \<Rightarrow> nat \<times> world" where
  "process_comment env automation instagramAccount cmt s =
     (case s of (totalSent, w) \<Rightarrow>
      if \<not> triggerMatched env automation cmt then s
      else if existingDM automation cmt w \<noteq> None then s
      else
        (case new_Date env w of (now, w1) \<Rightarrow>
         let oneHourAgo = now - 60 * 60 * 1000 in
         if rateLimit_or_10 automation \<le> int (recentDMs automation oneHourAgo w1)
         then (totalSent, w1)
         else dm_step env automation instagramAccount cmt
                (totalSent,
                 if replyToComments automation
                 then reply_step env automation instagramAccount cmt w1 else w1)))"

fun process_comments ::
  "env \<Rightarrow> automation \<Rightarrow> account \<Rightarrow> comment list \<Rightarrow> nat \<times> world \<Rightarrow> nat \<times> world" where
  "process_comments env automation instagramAccount [] s = s"
| "process_comments env automation instagramAccount (cmt # cmts) s =
     process_comments env automation instagramAccount cmts
       (process_comment env automation instagramAccount cmt s)"

text \<open>
  \<open>processPostComments\<close>. The two counters are parameters, numbers passed by value: the
  function updates its own copies and returns nothing. The model returns the final values
  of the copies beside the world, so that they can be spoken about; no caller reads them.
\<close>

definition processPostComments ::
  "env \<Rightarrow> post \<Rightarrow> automation \<Rightarrow> account \<Rightarrow> nat \<Rightarrow> nat \<Rightarrow> world \<Rightarrow> (nat \<times> nat) \<times> world" where
  "processPostComments env post' automation instagramAccount totalProcessed totalSent w =
     (let since = (case lastChecked automation of None \<Rightarrow> 0 | Some t \<Rightarrow> t) in
      case getPostComments env (accessToken instagramAccount) (post_instagramId post') since w of
        (comments, w1) \<Rightarrow>
      case process_comments env automation instagramAccount comments (totalSent, w1) of
        (totalSent', w2) \<Rightarrow>
      case new_Date env w2 of (now, w3) \<Rightarrow>
        ((totalProcessed + length comments, totalSent'),
         update_lastChecked (a_id automation) now w3))"

text \<open>The loop of lines 150 to 152 over the posts of an "any post" automation.\<close>

fun process_posts ::
  "env \<Rightarrow> automation \<Rightarrow> account \<Rightarrow> nat \<Rightarrow> nat \<Rightarrow> post list \<Rightarrow> world \<Rightarrow> world" where
  "process_posts env automation instagramAccount totalProcessed totalSent [] w = w"
| "process_posts env automation instagramAccount totalProcessed totalSent (p # ps) w =
     process_posts env automation instagramAccount totalProcessed totalSent ps
       (snd (processPostComments env p automation instagramAccount totalProcessed totalSent w))"

text \<open>The body of the loop of lines 118 to 171, for one automation read at line 106.\<close>

definition process_automation :: "env \<Rightarrow> nat \<Rightarrow> nat \<Rightarrow> automation \<Rightarrow> world \<Rightarrow> world" where
  "process_automation env totalProcessed totalSent automation w =
     (case find (\<lambda>a. acc_id a = instagramAccountId automation) (instagramAccounts w) of
        None \<Rightarrow> w
      | Some found \<Rightarrow>
          (case getValidTokenForAccount env (acc_id found) w of
             (None, w1) \<Rightarrow> w1
           | (Some validToken, w1) \<Rightarrow>
               if validToken = [] then w1
               else
                 (let instagramAccount = found\<lparr>accessToken := validToken\<rparr> in
                  if falsy (postId automation) then
                    process_posts env automation instagramAccount totalProcessed totalSent
                      (filter (\<lambda>p. post_instagramAccountId p = acc_id instagramAccount) (posts w1))
                      w1
                  else
                    (case find (\<lambda>p. Some (post_id p) = postId automation) (posts w1) of
                       None \<Rightarrow> w1
                     | Some p \<Rightarrow>
                         snd (processPostComments env p automation instagramAccount
                                totalProcessed totalSent w1)))))"

fun process_automations :: "env \<Rightarrow> nat \<Rightarrow> nat \<Rightarrow> automation list \<Rightarrow> world \<Rightarrow> world" where
  "process_automations env totalProcessed totalSent [] w = w"
| "process_automations env totalProcessed totalSent (a # as) w =
     process_automations env totalProcessed totalSent as
       (process_automation env totalProcessed totalSent a w)"

record summary =
  success :: bool
  automationsProcessed :: nat
  commentsProcessed :: nat
  messagesSent :: nat

text \<open>
  \<open>checkComments\<close>. \<open>totalProcessed\<close> and \<open>totalSent\<close> are the constants of lines 115 and
  116; the summary reads them at lines 178 and 179.
\<close>

definition checkComments :: "env \<Rightarrow> world \<Rightarrow> (string + summary) \<times> world" where
  "checkComments env w =
     (if \<not> connect_ok env then (Inl ''Failed to check comments'', w)
      else
        (let automations' = filter active (automations w);
             totalProcessed = 0;
             totalSent = 0;
             w' = process_automations env totalProcessed totalSent automations' w
         in (Inr \<lparr>success = True, automationsProcessed = length automations',
                  commentsProcessed = totalProcessed, messagesSent = totalSent\<rparr>, w')))"

subsection \<open>Several runs\<close>

text \<open>
  The cron schedule invokes the job again and again; each run meets the world the last one
  left and an outside of its own.
\<close>

fun run_sequence :: "env list \<Rightarrow> world \<Rightarrow> world" where
  "run_sequence [] w = w"
| "run_sequence (env # envs) w = run_sequence envs (snd (checkComments env w))"

section \<open>Vocabulary of the properties\<close>

text \<open>The ledger entries of one automation for one recipient handle, of any status.\<close>

definition ledger_for :: "ident \<Rightarrow> string option \<Rightarrow> directMessage list \<Rightarrow> directMessage list" where
  "ledger_for aid u dms = filter (\<lambda>r. dm_automationId r = aid \<and> dm_recipientUsername r = u) dms"

text \<open>
  How the entries of a pair may change: not at all, or from none to at most one.
\<close>

definition ledger_step :: "ident \<Rightarrow> string option \<Rightarrow> directMessage list \<Rightarrow> directMessage list \<Rightarrow> bool" where
  "ledger_step aid u dms dms' =
     (ledger_for aid u dms' = ledger_for aid u dms \<or>
      (ledger_for aid u dms = [] \<and> length (ledger_for aid u dms') \<le> 1))"

text \<open>
  The entries with status \<open>sent\<close> of an automation whose age at \<open>now\<close> is at most sixty
  minutes (the query of line 230 puts no upper bound on \<open>sentAt\<close>).
\<close>

definition sent_in_window :: "ident \<Rightarrow> time \<Rightarrow> directMessage list \<Rightarrow> directMessage list" where
  "sent_in_window aid now dms =
     filter (\<lambda>r. dm_automationId r = aid \<and> dm_status r = Sent
                  \<and> now - dm_sentAt r \<le> 60 * 60 * 1000) dms"

text \<open>The requests and writes that a dispatch (reply, lookup, send, ledger) consists of.\<close>

fun dispatch_event :: "event \<Rightarrow> bool" where
  "dispatch_event (Post_reply tok cid txt) = True"
| "dispatch_event (Username_search tok u) = True"
| "dispatch_event (Post_message tok i rid m q) = True"
| "dispatch_event (Insert_directMessage r) = True"
| "dispatch_event (Insert_commentReply r) = True"
| "dispatch_event (Update_automation_stats i t) = True"
| "dispatch_event e = False"

definition dispatches :: "world \<Rightarrow> world \<Rightarrow> bool" where
  "dispatches w w' = (\<exists>evs. trace w' = trace w @ evs \<and> list_all dispatch_event evs)"



section \<open>A sample world\<close>

text \<open>
  One account, one automation on one post, one commenter. The remote side accepts every
  request; \<open>bob\<close> is the only handle it can resolve. Lower-casing is the ASCII one, and
  the host's local time is UTC.
\<close>

definition ascii_lower :: "string \<Rightarrow> string" where
  "ascii_lower s =
     map (\<lambda>c. case map_of (zip ''ABCDEFGHIJKLMNOPQRSTUVWXYZ'' ''abcdefghijklmnopqrstuvwxyz'') c of
                 None \<Rightarrow> c | Some d \<Rightarrow> d) s"

definition ex_account :: account where
  "ex_account = \<lparr>acc_id = ''acc1'', acc_instagramId = ''ig_acc1'', accessToken = ''tok1'',
     expiresAt = None, lastTokenRefresh = None, acc_username = ''shop''\<rparr>"

definition ex_automation :: automation where
  "ex_automation = \<lparr>a_id = ''auto1'', instagramAccountId = ''acc1'', postId = Some ''post1'',
     active = True, triggerKeyword = ''Link'', lastChecked = None, rateLimit = Some 10,
     replyToComments = True, commentReply = None, useOpeningMessage = False,
     openingMessage = None, buttonText = None, message = ''Hi!'', addBranding = False,
     brandingMessage = None, totalDMsSent = 0, lastTriggered = None\<rparr>"

definition ex_post :: post where
  "ex_post = \<lparr>post_id = ''post1'', post_instagramAccountId = ''acc1'',
     post_instagramId = ''ig_post1''\<rparr>"

definition ex_raw :: raw_comment where
  "ex_raw = \<lparr>raw_id = ''c1'', raw_text = ''Send me the LINK'', raw_username = Some ''bob'',
     raw_from_username = None, raw_timestamp = ''2024-01-01T00:00:00+0000''\<rparr>"

definition ex_comment :: comment where
  "ex_comment = of_raw ex_raw"

definition ex_env :: env where
  "ex_env = \<lparr>connect_ok = True,
     clock = (\<lambda>n. 1700000000000 + 1000 * int n),
     newObjectId = (\<lambda>n. replicate n (CHR ''o'')),
     toLowerCase = ascii_lower,
     localTZA = (\<lambda>t isUTC. 0),
     api_me = (\<lambda>n tok. Is_ok ()),
     api_refresh = (\<lambda>n tok. Is_ok (''tok2'', 5184000)),
     api_comments = (\<lambda>n tok pid since. Is_ok [ex_raw]),
     api_reply = (\<lambda>n tok cid txt. Is_ok ()),
     api_username_search =
       (\<lambda>n tok u. if u = Some ''bob'' then Is_ok (Some [''uid_bob'']) else Is_ok (Some [])),
     api_messages = (\<lambda>n tok i rid m q. Is_ok ())\<rparr>"

definition ex_world :: world where
  "ex_world = \<lparr>automations = [ex_automation], instagramAccounts = [ex_account],
     posts = [ex_post], directMessages = [], commentReplies = [], tick = 0, trace = []\<rparr>"

text \<open>The same outside, except that the handle lookup finds nobody.\<close>

definition ex_env_no_user :: env where
  "ex_env_no_user = ex_env\<lparr>api_username_search := \<lambda>n tok u. Is_ok (Some [])\<rparr>"

text \<open>The same outside, except that fetching comments is refused.\<close>

definition ex_env_fetch_fails :: env where
  "ex_env_fetch_fails = ex_env\<lparr>api_comments := \<lambda>n tok pid since. Not_ok ''Invalid OAuth access token''\<rparr>"




text \<open>
  A ledger of ten messages sent by the automation to ten other recipients, a thousand
  seconds before the clock of the sample outside starts.
\<close>

definition ex_sent :: "string \<Rightarrow> directMessage" where
  "ex_sent u = \<lparr>dm_id = ''dm_'' @ u, dm_automationId = ''auto1'',
     dm_recipientUsername = Some u, dm_commentId = ''c_'' @ u, dm_message = Some ''Hi!'',
     dm_type = Some Direct, dm_status = Sent, dm_error = None, dm_sentAt = 1699999000000\<rparr>"

definition ex_world_ten_sent :: world where
  "ex_world_ten_sent =
     ex_world\<lparr>directMessages :=
       map ex_sent [''u0'', ''u1'', ''u2'', ''u3'', ''u4'', ''u5'', ''u6'', ''u7'', ''u8'', ''u9'']\<rparr>"

text \<open>
  A host in the zone of New York around the start of daylight saving time on 10 March
  2024 at 07:00 UTC (five hours behind UTC before, four hours after; a local time in the
  skipped hour counts as before), a clock that starts on 27 February 2024, and a stored
  token that the probe refuses.
\<close>

definition ex_localTZA_new_york :: "time \<Rightarrow> bool \<Rightarrow> int" where
  "ex_localTZA_new_york t isUTC =
     (if (if isUTC then t else t + 14400000) < 1710054000000 then - 18000000 else - 14400000)"

definition ex_env_new_york :: env where
  "ex_env_new_york =
     ex_env\<lparr>clock := \<lambda>n. 1709000000000 + 1000 * int n,
       localTZA := ex_localTZA_new_york,
       api_me := \<lambda>n tok. Not_ok ''expired''\<rparr>"

text \<open>The same ledger with only the first of these messages.\<close>

definition ex_world_one_sent :: world where
  "ex_world_one_sent = ex_world\<lparr>directMessages := [ex_sent ''u0'']\<rparr>"

section \<open>How the job treats the ledger and the trace\<close>

lemma starts_with_prefix: "starts_with ys xs = prefix xs ys"
  by (induction ys xs rule: starts_with.induct) auto

lemma includes_str_sublist: "includes_str ys xs = sublist xs ys"
proof (induction ys)
  case Nil
  show ?case by simp
next
  case (Cons y ys)
  show ?case
    by (simp only: includes_str.simps starts_with_prefix Cons sublist_Cons_right)
qed

lemma includes_str_iff: "includes_str ys xs = (\<exists>ps ss. ys = ps @ xs @ ss)"
  by (simp add: includes_str_sublist sublist_def)

lemma ledger_step_refl: "ledger_step aid u dms dms"
  by (simp add: ledger_step_def)

lemma ledger_step_trans:
  "ledger_step aid u a b \<Longrightarrow> ledger_step aid u b c \<Longrightarrow> ledger_step aid u a c"
  by (auto simp: ledger_step_def)

lemma dms_reply_step [simp]:
  "directMessages (reply_step env a acct c w) = directMessages w"
  by (simp add: reply_step_def replyToComment_def new_ObjectId_def new_Date_def
      insert_commentReply_def observe_def emit_def Let_def split: response.split)

lemma dms_username_search:
  "directMessages (snd (username_search env tok u w)) = directMessages w"
  by (simp add: username_search_def observe_def emit_def Let_def
      split: response.split option.split list.split)

lemma dms_post_message:
  "directMessages (snd (post_message env tok i rid m q w)) = directMessages w"
  by (simp add: post_message_def observe_def emit_def Let_def split: response.split)

lemma dms_sendDirectMessage:
  "directMessages (snd (sendDirectMessage env tok i u m w)) = directMessages w"
proof -
  obtain r1 w1 where s: "username_search env tok u w = (r1, w1)"
    by (cases "username_search env tok u w") blast
  have "directMessages (snd (r1, w1)) = directMessages w"
    unfolding s [symmetric] by (rule dms_username_search)
  then show ?thesis
    using s by (cases r1) (simp_all add: sendDirectMessage_def dms_post_message)
qed

lemma dms_sendDirectMessageWithButton:
  "directMessages (snd (sendDirectMessageWithButton env tok i u m b aid w)) = directMessages w"
proof -
  obtain r1 w1 where s: "username_search env tok u w = (r1, w1)"
    by (cases "username_search env tok u w") blast
  have "directMessages (snd (r1, w1)) = directMessages w"
    unfolding s [symmetric] by (rule dms_username_search)
  then show ?thesis
    using s by (cases r1) (simp_all add: sendDirectMessageWithButton_def dms_post_message)
qed

lemma dms_log_failed:
  "\<exists>r. directMessages (log_failed env a c e w) = directMessages w @ [r]
       \<and> dm_automationId r = a_id a \<and> dm_recipientUsername r = c_username c
       \<and> dm_status r = Failed"
  by (simp add: log_failed_def new_ObjectId_def new_Date_def insert_directMessage_def
      observe_def emit_def)

lemma dms_log_sent:
  "\<exists>r. directMessages (log_sent env a c m k w) = directMessages w @ [r]
       \<and> dm_automationId r = a_id a \<and> dm_recipientUsername r = c_username c
       \<and> dm_status r = Sent \<and> dm_type r = Some k"
  by (simp add: log_sent_def new_ObjectId_def new_Date_def insert_directMessage_def
      observe_def emit_def)

lemma dms_bump_stats [simp]: "directMessages (bump_stats env a w) = directMessages w"
  by (simp add: bump_stats_def new_Date_def update_automation_stats_def observe_def emit_def)

lemma dms_dm_step:
  "\<exists>r. directMessages (snd (dm_step env a acct c (n, w))) = directMessages w @ [r]
       \<and> dm_automationId r = a_id a \<and> dm_recipientUsername r = c_username c"
proof (cases "useOpeningMessage a")
  case True
  obtain res w1 where s: "sendDirectMessageWithButton env (accessToken acct) (acc_instagramId acct)
      (c_username c) (or_else (openingMessage a) default_openingMessage)
      (or_else (buttonText a) default_buttonText) (a_id a) w = (res, w1)"
    by (cases "sendDirectMessageWithButton env (accessToken acct) (acc_instagramId acct)
      (c_username c) (or_else (openingMessage a) default_openingMessage)
      (or_else (buttonText a) default_buttonText) (a_id a) w") blast
  have "directMessages (snd (res, w1)) = directMessages w"
    unfolding s [symmetric] by (rule dms_sendDirectMessageWithButton)
  then have d: "directMessages w1 = directMessages w"
    by simp
  show ?thesis
  proof (cases res)
    case (Inl e)
    then show ?thesis
      using True s d dms_log_failed [of env a c e w1] by (auto simp: dm_step_def)
  next
    case (Inr x)
    then show ?thesis
      using True s d dms_log_sent [of env a c _ Opening w1]
      by (auto simp: dm_step_def)
  qed
next
  case False
  define m where "m = (if addBranding a
                then message a @ [CHR 0x0A, CHR 0x0A]
                       @ or_else (brandingMessage a) default_brandingMessage
                else message a)"
  obtain res w1 where s: "sendDirectMessage env (accessToken acct) (acc_instagramId acct)
      (c_username c) m w = (res, w1)"
    by (cases "sendDirectMessage env (accessToken acct) (acc_instagramId acct)
      (c_username c) m w") blast
  have "directMessages (snd (res, w1)) = directMessages w"
    unfolding s [symmetric] by (rule dms_sendDirectMessage)
  then have d: "directMessages w1 = directMessages w"
    by simp
  show ?thesis
  proof (cases res)
    case (Inl e)
    then show ?thesis
      using False s d dms_log_failed [of env a c e w1] by (auto simp: dm_step_def m_def)
  next
    case (Inr x)
    then show ?thesis
      using False s d dms_log_sent [of env a c m Direct w1]
      by (auto simp: dm_step_def m_def)
  qed
qed

lemma existingDM_None_iff:
  "existingDM a c w = None \<longleftrightarrow> ledger_for (a_id a) (c_username c) (directMessages w) = []"
  by (auto simp: existingDM_def ledger_for_def find_None_iff filter_empty_conv)

lemma ledger_step_process_comment:
  "ledger_step aid u (directMessages w)
     (directMessages (snd (process_comment env a acct c (n, w))))"
proof -
  consider (skip) "\<not> triggerMatched env a c \<or> existingDM a c w \<noteq> None"
    | (limited) "triggerMatched env a c" "existingDM a c w = None"
        "rateLimit_or_10 a \<le> int (recentDMs a (clock env (tick w) - 60 * 60 * 1000) (observe w))"
    | (dispatch) "triggerMatched env a c" "existingDM a c w = None"
        "\<not> rateLimit_or_10 a \<le> int (recentDMs a (clock env (tick w) - 60 * 60 * 1000) (observe w))"
    by blast
  then show ?thesis
  proof cases
    case skip
    then show ?thesis by (auto simp: process_comment_def ledger_step_refl)
  next
    case limited
    then show ?thesis
      by (simp add: process_comment_def new_Date_def Let_def observe_def ledger_step_refl)
  next
    case dispatch
    define w2 where "w2 = (if replyToComments a then reply_step env a acct c (observe w) else observe w)"
    have w2: "directMessages w2 = directMessages w"
      by (simp add: w2_def observe_def)
    have pc: "process_comment env a acct c (n, w) = dm_step env a acct c (n, w2)"
      using dispatch by (simp add: process_comment_def new_Date_def Let_def w2_def)
    obtain r where r: "directMessages (snd (dm_step env a acct c (n, w2))) = directMessages w @ [r]"
      "dm_automationId r = a_id a" "dm_recipientUsername r = c_username c"
      using dms_dm_step [of env a acct c n w2] w2 by auto
    have empty: "ledger_for (a_id a) (c_username c) (directMessages w) = []"
      using dispatch(2) by (simp add: existingDM_None_iff)
    show ?thesis
      using r empty by (auto simp: pc ledger_step_def ledger_for_def)
  qed
qed


lemma dispatches_trans:
  assumes "dispatches a b" and "dispatches b c"
  shows "dispatches a c"
proof -
  obtain evs where 1: "trace b = trace a @ evs" "list_all dispatch_event evs"
    using assms(1) by (auto simp: dispatches_def)
  obtain evs' where 2: "trace c = trace b @ evs'" "list_all dispatch_event evs'"
    using assms(2) by (auto simp: dispatches_def)
  have "trace c = trace a @ (evs @ evs')" "list_all dispatch_event (evs @ evs')"
    using 1 2 by simp_all
  then show ?thesis
    unfolding dispatches_def by blast
qed

lemma dispatches_reply_step: "dispatches w (reply_step env a acct c w)"
proof (cases "api_reply env (tick w) (accessToken acct) (c_id c)
                (or_else (commentReply a) default_commentReply)")
  case (Threw e)
  then show ?thesis
    by (simp add: dispatches_def reply_step_def replyToComment_def observe_def emit_def)
next
  case (Not_ok m)
  then show ?thesis
    by (simp add: dispatches_def reply_step_def replyToComment_def observe_def emit_def)
next
  case (Is_ok u)
  then show ?thesis
    by (simp add: dispatches_def reply_step_def replyToComment_def new_ObjectId_def
        new_Date_def insert_commentReply_def observe_def emit_def)
qed


lemma dispatches_post_message:
  "post_message env tok i rid m q w = (r, w') \<Longrightarrow> dispatches w w'"
  by (auto simp: dispatches_def post_message_def observe_def emit_def Let_def
      split: response.splits)



lemma dispatches_log_failed: "dispatches w (log_failed env a c e w)"
  by (simp add: dispatches_def log_failed_def new_ObjectId_def new_Date_def
      insert_directMessage_def observe_def emit_def)

lemma dispatches_log_sent: "dispatches w (log_sent env a c m k w)"
  by (simp add: dispatches_def log_sent_def new_ObjectId_def new_Date_def
      insert_directMessage_def observe_def emit_def)

lemma dispatches_bump_stats: "dispatches w (bump_stats env a w)"
  by (simp add: dispatches_def bump_stats_def new_Date_def update_automation_stats_def
      observe_def emit_def)




lemma ledger_step_process_comments:
  "ledger_step aid u (directMessages w)
     (directMessages (snd (process_comments env a acct cs (n, w))))"
proof (induction cs arbitrary: n w)
  case Nil
  show ?case by (simp add: ledger_step_refl)
next
  case (Cons c cs)
  obtain n1 w1 where s: "process_comment env a acct c (n, w) = (n1, w1)"
    by (cases "process_comment env a acct c (n, w)") blast
  have "ledger_step aid u (directMessages w) (directMessages w1)"
    using ledger_step_process_comment [of aid u w env a acct c n] s by simp
  then show ?case
    using Cons [where n = n1 and w = w1] s by (auto intro: ledger_step_trans)
qed


lemma ledger_step_processPostComments:
  "ledger_step aid u (directMessages w)
     (directMessages (snd (processPostComments env p a acct tp ts w)))"
proof -
  define since where "since = (case lastChecked a of None \<Rightarrow> 0 | Some t \<Rightarrow> t)"
  obtain cs w1 where g: "getPostComments env (accessToken acct) (post_instagramId p) since w = (cs, w1)"
    by (cases "getPostComments env (accessToken acct) (post_instagramId p) since w") blast
  have d1: "directMessages w1 = directMessages w"
    using g by (auto simp: getPostComments_def Let_def observe_def emit_def split: response.splits)
  obtain n2 w2 where pc: "process_comments env a acct cs (ts, w1) = (n2, w2)"
    by (cases "process_comments env a acct cs (ts, w1)") blast
  have "directMessages (snd (processPostComments env p a acct tp ts w)) = directMessages w2"
    using g pc
    by (simp add: processPostComments_def since_def [symmetric] new_Date_def
        update_lastChecked_def observe_def emit_def)
  then show ?thesis
    using ledger_step_process_comments [of aid u w1 env a acct cs ts] pc d1 by simp
qed

lemma ledger_step_process_posts:
  "ledger_step aid u (directMessages w)
     (directMessages (process_posts env a acct tp ts ps w))"
proof (induction ps arbitrary: w)
  case Nil
  show ?case by (simp add: ledger_step_refl)
next
  case (Cons p ps)
  show ?case
    using ledger_step_processPostComments [of aid u w env p a acct tp ts]
      Cons [of "snd (processPostComments env p a acct tp ts w)"]
    by (auto intro: ledger_step_trans)
qed

lemma dms_getValidTokenForAccount:
  "directMessages (snd (getValidTokenForAccount env i w)) = directMessages w"
  by (simp add: getValidTokenForAccount_def refreshInstagramToken_def new_Date_def
      update_account_def observe_def emit_def Let_def
      split: option.split response.split prod.split)

lemma ledger_step_process_automation:
  "ledger_step aid u (directMessages w) (directMessages (process_automation env tp ts a w))"
proof (cases "find (\<lambda>x. acc_id x = instagramAccountId a) (instagramAccounts w)")
  case None
  then show ?thesis by (simp add: process_automation_def ledger_step_refl)
next
  case (Some found)
  obtain tok w1 where g: "getValidTokenForAccount env (acc_id found) w = (tok, w1)"
    by (cases "getValidTokenForAccount env (acc_id found) w") blast
  have d1: "directMessages w1 = directMessages w"
    using dms_getValidTokenForAccount [of env "acc_id found" w] g by simp
  have "ledger_step aid u (directMessages w1) (directMessages (process_automation env tp ts a w))"
    using Some g
    by (simp add: process_automation_def Let_def ledger_step_refl
        ledger_step_process_posts ledger_step_processPostComments
        split: option.split)
  then show ?thesis
    by (simp add: d1)
qed

lemma ledger_step_process_automations:
  "ledger_step aid u (directMessages w) (directMessages (process_automations env tp ts as w))"
proof (induction as arbitrary: w)
  case Nil
  show ?case by (simp add: ledger_step_refl)
next
  case (Cons a as)
  show ?case
    using ledger_step_process_automation [of aid u w env tp ts a]
      Cons [of "process_automation env tp ts a w"]
    by (auto intro: ledger_step_trans)
qed

lemma ledger_step_checkComments:
  "ledger_step aid u (directMessages w) (directMessages (snd (checkComments env w)))"
  by (simp add: checkComments_def Let_def ledger_step_refl ledger_step_process_automations)

lemma ledger_step_run_sequence:
  "ledger_step aid u (directMessages w) (directMessages (run_sequence envs w))"
proof (induction envs arbitrary: w)
  case Nil
  show ?case by (simp add: ledger_step_refl)
next
  case (Cons env envs)
  show ?case
    using ledger_step_checkComments [of aid u w env] Cons [of "snd (checkComments env w)"]
    by (auto intro: ledger_step_trans)
qed

section \<open>The trigger\<close>

text \<open>
  Claim C8. The trigger holds for every comment when the automation's keyword is exactly
  \<open>any\<close>; for any other keyword it holds exactly when the lower-cased text of the comment
  contains the lower-cased keyword as a contiguous run; and a comment for which it does not
  hold leaves the loop state as it found it: no request goes out and nothing is written.
\<close>

theorem trigger_evaluation:
  "(triggerKeyword automation = ''any'' \<longrightarrow> triggerMatched env automation cmt) \<and>
   (triggerKeyword automation \<noteq> ''any'' \<longrightarrow>
      triggerMatched env automation cmt =
        (\<exists>before after. toLowerCase env (c_text cmt)
            = before @ toLowerCase env (triggerKeyword automation) @ after)) \<and>
   (\<not> triggerMatched env automation cmt \<longrightarrow>
      process_comment env automation instagramAccount cmt (totalSent, w) = (totalSent, w))"
  by (simp add: triggerMatched_def process_comment_def includes_str_iff)

theorem trigger_evaluation_witness:
  "triggerKeyword (ex_automation\<lparr>triggerKeyword := ''any''\<rparr>) = ''any''
   \<and> triggerMatched ex_env (ex_automation\<lparr>triggerKeyword := ''any''\<rparr>) ex_comment
   \<and> triggerKeyword ex_automation \<noteq> ''any''
   \<and> triggerMatched ex_env ex_automation ex_comment
   \<and> toLowerCase ex_env (c_text ex_comment)
        = ''send me the '' @ toLowerCase ex_env (triggerKeyword ex_automation) @ ''''
   \<and> \<not> triggerMatched ex_env (ex_automation\<lparr>triggerKeyword := ''price''\<rparr>) ex_comment
   \<and> process_comment ex_env (ex_automation\<lparr>triggerKeyword := ''price''\<rparr>) ex_account
         ex_comment (0, ex_world) = (0, ex_world)"
proof -
  have any: "triggerKeyword (ex_automation\<lparr>triggerKeyword := ''any''\<rparr>) = ''any''"
    by simp
  have kw: "triggerKeyword ex_automation \<noteq> ''any''"
    by (simp add: ex_automation_def)
  have low: "toLowerCase ex_env (c_text ex_comment)
        = ''send me the '' @ toLowerCase ex_env (triggerKeyword ex_automation) @ ''''"
    by (simp add: ex_env_def ex_comment_def of_raw_def ex_raw_def ex_automation_def
        ascii_lower_def)
  have no: "\<not> triggerMatched ex_env (ex_automation\<lparr>triggerKeyword := ''price''\<rparr>) ex_comment"
    by (simp add: triggerMatched_def ex_env_def ex_comment_def of_raw_def ex_raw_def
        ex_automation_def ascii_lower_def)
  note t1 = trigger_evaluation [of "ex_automation\<lparr>triggerKeyword := ''any''\<rparr>" ex_env ex_comment
      ex_account 0 ex_world]
  note t2 = trigger_evaluation [of ex_automation ex_env ex_comment ex_account 0 ex_world]
  note t3 = trigger_evaluation [of "ex_automation\<lparr>triggerKeyword := ''price''\<rparr>" ex_env
      ex_comment ex_account 0 ex_world]
  have a: "triggerMatched ex_env (ex_automation\<lparr>triggerKeyword := ''any''\<rparr>) ex_comment"
    using t1 any by blast
  have b: "triggerMatched ex_env ex_automation ex_comment"
    using t2 kw low by blast
  have c: "process_comment ex_env (ex_automation\<lparr>triggerKeyword := ''price''\<rparr>) ex_account
         ex_comment (0, ex_world) = (0, ex_world)"
    using t3 no by blast
  show ?thesis
    using any a kw b low no c by blast
qed

section \<open>Evaluating the sample world\<close>

lemmas ex_defs = ex_env_def ex_world_def ex_automation_def ex_account_def ex_post_def ex_raw_def
  ex_comment_def ascii_lower_def

lemmas run_defs = checkComments_def process_automation_def getValidTokenForAccount_def
  refreshInstagramToken_def new_Date_def new_ObjectId_def observe_def emit_def
  update_account_def insert_directMessage_def insert_commentReply_def
  update_automation_stats_def update_lastChecked_def processPostComments_def
  getPostComments_def of_raw_def falsy_def or_else_def process_comment_def
  triggerMatched_def existingDM_def recentDMs_def rateLimit_or_10_def reply_step_def
  replyToComment_def dm_step_def sendDirectMessage_def sendDirectMessageWithButton_def
  username_search_def post_message_def log_failed_def log_sent_def bump_stats_def
  default_commentReply_def Let_def

lemma ex_first_run:
  "map dm_status (directMessages (snd (checkComments ex_env ex_world))) = [Sent]
   \<and> map dm_type (directMessages (snd (checkComments ex_env ex_world))) = [Some Direct]
   \<and> map dm_automationId (directMessages (snd (checkComments ex_env ex_world))) = [''auto1'']
   \<and> map dm_recipientUsername (directMessages (snd (checkComments ex_env ex_world)))
        = [Some ''bob'']"
  by (simp add: run_defs ex_defs)

section \<open>At most one delivery per automation and recipient\<close>

text \<open>
  Claim C1. When the ledger already holds an entry, of any status, for an automation and a
  recipient handle, a comment of that recipient under that automation is skipped whole:
  the loop state is returned as it was, so no reply, no lookup, no message and no entry.
  Over any sequence of runs the entries of such a pair stay exactly as they were; and a
  pair that has at most one entry with status \<open>sent\<close> (for instance none) still has at most
  one after the runs. Every \<open>sent\<close> entry is of kind \<open>direct\<close> or \<open>opening\<close>, so the bound
  covers both kinds together.
\<close>

theorem at_most_once_delivery:
  "(existingDM automation cmt w \<noteq> None \<longrightarrow>
      process_comment env automation instagramAccount cmt (totalSent, w) = (totalSent, w)) \<and>
   (ledger_for aid u (directMessages w) \<noteq> [] \<longrightarrow>
      ledger_for aid u (directMessages (run_sequence envs w))
        = ledger_for aid u (directMessages w)) \<and>
   (length (filter (\<lambda>r. dm_status r = Sent) (ledger_for aid u (directMessages w))) \<le> 1 \<longrightarrow>
      length (filter (\<lambda>r. dm_status r = Sent)
                (ledger_for aid u (directMessages (run_sequence envs w)))) \<le> 1)"
proof (intro conjI impI)
  assume "existingDM automation cmt w \<noteq> None"
  then show "process_comment env automation instagramAccount cmt (totalSent, w) = (totalSent, w)"
    by (simp add: process_comment_def)
next
  assume "ledger_for aid u (directMessages w) \<noteq> []"
  then show "ledger_for aid u (directMessages (run_sequence envs w))
        = ledger_for aid u (directMessages w)"
    using ledger_step_run_sequence [of aid u w envs] by (simp add: ledger_step_def)
next
  assume one: "length (filter (\<lambda>r. dm_status r = Sent) (ledger_for aid u (directMessages w))) \<le> 1"
  have "length (filter (\<lambda>r. dm_status r = Sent)
                (ledger_for aid u (directMessages (run_sequence envs w))))
          \<le> length (ledger_for aid u (directMessages (run_sequence envs w)))"
    by (rule length_filter_le)
  note le = this
  consider (same) "ledger_for aid u (directMessages (run_sequence envs w))
                     = ledger_for aid u (directMessages w)"
    | (fresh) "length (ledger_for aid u (directMessages (run_sequence envs w))) \<le> 1"
    using ledger_step_run_sequence [of aid u w envs] by (auto simp: ledger_step_def)
  then show "length (filter (\<lambda>r. dm_status r = Sent)
                (ledger_for aid u (directMessages (run_sequence envs w)))) \<le> 1"
  proof cases
    case same
    then show ?thesis using one by simp
  next
    case fresh
    show ?thesis using le fresh by (rule le_trans)
  qed
qed

theorem at_most_once_delivery_witness:
  "existingDM ex_automation ex_comment (snd (checkComments ex_env ex_world)) \<noteq> None
   \<and> process_comment ex_env ex_automation ex_account ex_comment
        (0, snd (checkComments ex_env ex_world)) = (0, snd (checkComments ex_env ex_world))
   \<and> ledger_for ''auto1'' (Some ''bob'') (directMessages (snd (checkComments ex_env ex_world))) \<noteq> []
   \<and> ledger_for ''auto1'' (Some ''bob'')
        (directMessages (run_sequence [ex_env, ex_env] (snd (checkComments ex_env ex_world))))
      = ledger_for ''auto1'' (Some ''bob'') (directMessages (snd (checkComments ex_env ex_world)))
   \<and> length (filter (\<lambda>r. dm_status r = Sent)
         (ledger_for ''auto1'' (Some ''bob'') (directMessages (snd (checkComments ex_env ex_world)))))
       \<le> 1
   \<and> length (filter (\<lambda>r. dm_status r = Sent)
         (ledger_for ''auto1'' (Some ''bob'')
            (directMessages (run_sequence [ex_env, ex_env] (snd (checkComments ex_env ex_world))))))
       \<le> 1"
proof -
  obtain r where r: "directMessages (snd (checkComments ex_env ex_world)) = [r]"
    "dm_status r = Sent" "dm_automationId r = ''auto1''" "dm_recipientUsername r = Some ''bob''"
    using ex_first_run by (auto simp: map_eq_Cons_conv)
  have h1: "existingDM ex_automation ex_comment (snd (checkComments ex_env ex_world)) \<noteq> None"
    using r by (simp add: existingDM_def ex_automation_def ex_comment_def of_raw_def ex_raw_def
        falsy_def)
  have h2: "ledger_for ''auto1'' (Some ''bob'')
      (directMessages (snd (checkComments ex_env ex_world))) \<noteq> []"
    using r by (simp add: ledger_for_def)
  have h3: "length (filter (\<lambda>r. dm_status r = Sent)
         (ledger_for ''auto1'' (Some ''bob'') (directMessages (snd (checkComments ex_env ex_world)))))
       \<le> 1"
    using r by (simp add: ledger_for_def)
  show ?thesis
    using h1 h2 h3
      at_most_once_delivery [of ex_automation ex_comment "snd (checkComments ex_env ex_world)"
        ex_env ex_account 0 "''auto1''" "Some ''bob''" "[ex_env, ex_env]"]
    by blast
qed

section \<open>Obtaining a valid token\<close>

lemma find_updateOne:
  "find P xs = Some x \<Longrightarrow> P (f x) \<Longrightarrow> find P (updateOne P f xs) = Some (f x)"
  by (induction xs) (auto split: if_splits)

text \<open>
  The three outcomes of \<open>getValidTokenForAccount\<close> for an account on file. If the probe
  of the stored token is accepted, the stored token is returned and the world differs
  only by the probe request: no write. If the probe is refused or raises and the refresh
  is accepted, the new token is returned after exactly one write, the update of the
  account with the new token, the expiry that \<open>setSeconds\<close> computes from the clock and
  the returned lifetime, and the refresh time; the account then on file carries them. If
  the probe and the refresh both fail, the result is \<open>null\<close>, nothing is written, and an
  automation of that account is left after these two requests.
\<close>

lemma getValidTokenForAccount_paths:
  assumes found: "find (\<lambda>a. acc_id a = accountId) (instagramAccounts w) = Some account"
  shows
    "(api_me env (tick w) (accessToken account) = Is_ok () \<longrightarrow>
        getValidTokenForAccount env accountId w
          = (Some (accessToken account),
             w\<lparr>tick := Suc (tick w), trace := trace w @ [Get_me (accessToken account)]\<rparr>))
     \<and> (api_me env (tick w) (accessToken account) \<noteq> Is_ok ()
          \<and> api_refresh env (Suc (tick w)) (accessToken account) = Is_ok (newToken, ttl) \<longrightarrow>
        getValidTokenForAccount env accountId w
          = (Some newToken,
             w\<lparr>instagramAccounts :=
                  updateOne (\<lambda>a. acc_id a = accountId)
                    (\<lambda>a. a\<lparr>accessToken := newToken,
                            expiresAt := Some (setSeconds_plus env (clock env (tick w + 2)) ttl),
                            lastTokenRefresh := Some (clock env (tick w + 3))\<rparr>)
                    (instagramAccounts w),
               tick := tick w + 4,
               trace := trace w @
                 [Get_me (accessToken account), Refresh_access_token (accessToken account),
                  Update_account accountId newToken
                    (setSeconds_plus env (clock env (tick w + 2)) ttl)
                    (clock env (tick w + 3))]\<rparr>)
        \<and> find (\<lambda>a. acc_id a = accountId)
              (instagramAccounts (snd (getValidTokenForAccount env accountId w)))
            = Some (account\<lparr>accessToken := newToken,
                      expiresAt := Some (setSeconds_plus env (clock env (tick w + 2)) ttl),
                      lastTokenRefresh := Some (clock env (tick w + 3))\<rparr>))
     \<and> (api_me env (tick w) (accessToken account) \<noteq> Is_ok ()
          \<and> (\<forall>d. api_refresh env (Suc (tick w)) (accessToken account) \<noteq> Is_ok d) \<longrightarrow>
        getValidTokenForAccount env accountId w
          = (None,
             w\<lparr>tick := tick w + 2,
               trace := trace w @
                 [Get_me (accessToken account), Refresh_access_token (accessToken account)]\<rparr>)
        \<and> (instagramAccountId automation = accountId \<longrightarrow>
             process_automation env totalProcessed totalSent automation w
               = w\<lparr>tick := tick w + 2,
                   trace := trace w @
                     [Get_me (accessToken account),
                      Refresh_access_token (accessToken account)]\<rparr>))"
proof -
  have aid: "acc_id account = accountId"
    using found by (auto simp: find_Some_iff)
  have probe: "getValidTokenForAccount env accountId w
          = (Some (accessToken account),
             w\<lparr>tick := Suc (tick w), trace := trace w @ [Get_me (accessToken account)]\<rparr>)"
    if "api_me env (tick w) (accessToken account) = Is_ok ()"
    using found that by (simp add: getValidTokenForAccount_def observe_def emit_def)
  have refreshed: "getValidTokenForAccount env accountId w
          = (Some newToken,
             w\<lparr>instagramAccounts :=
                  updateOne (\<lambda>a. acc_id a = accountId)
                    (\<lambda>a. a\<lparr>accessToken := newToken,
                            expiresAt := Some (setSeconds_plus env (clock env (tick w + 2)) ttl),
                            lastTokenRefresh := Some (clock env (tick w + 3))\<rparr>)
                    (instagramAccounts w),
               tick := tick w + 4,
               trace := trace w @
                 [Get_me (accessToken account), Refresh_access_token (accessToken account),
                  Update_account accountId newToken
                    (setSeconds_plus env (clock env (tick w + 2)) ttl)
                    (clock env (tick w + 3))]\<rparr>)"
    if "api_me env (tick w) (accessToken account) \<noteq> Is_ok ()"
      and "api_refresh env (Suc (tick w)) (accessToken account) = Is_ok (newToken, ttl)"
    using found that aid
    by (cases "api_me env (tick w) (accessToken account)")
       (simp_all add: getValidTokenForAccount_def refreshInstagramToken_def new_Date_def
          update_account_def observe_def emit_def numeral_2_eq_2 numeral_3_eq_3)
  have stored: "find (\<lambda>a. acc_id a = accountId)
              (instagramAccounts (snd (getValidTokenForAccount env accountId w)))
            = Some (account\<lparr>accessToken := newToken,
                      expiresAt := Some (setSeconds_plus env (clock env (tick w + 2)) ttl),
                      lastTokenRefresh := Some (clock env (tick w + 3))\<rparr>)"
    if "api_me env (tick w) (accessToken account) \<noteq> Is_ok ()"
      and "api_refresh env (Suc (tick w)) (accessToken account) = Is_ok (newToken, ttl)"
    using refreshed [OF that] found aid by (simp add: find_updateOne)
  have refused: "getValidTokenForAccount env accountId w
          = (None,
             w\<lparr>tick := tick w + 2,
               trace := trace w @
                 [Get_me (accessToken account), Refresh_access_token (accessToken account)]\<rparr>)"
    if "api_me env (tick w) (accessToken account) \<noteq> Is_ok ()"
      and "\<forall>d. api_refresh env (Suc (tick w)) (accessToken account) \<noteq> Is_ok d"
    using found that
    by (cases "api_me env (tick w) (accessToken account)";
        cases "api_refresh env (Suc (tick w)) (accessToken account)")
       (simp_all add: getValidTokenForAccount_def refreshInstagramToken_def
          observe_def emit_def)
  have skipped: "process_automation env totalProcessed totalSent automation w
               = w\<lparr>tick := tick w + 2,
                   trace := trace w @
                     [Get_me (accessToken account),
                      Refresh_access_token (accessToken account)]\<rparr>"
    if "api_me env (tick w) (accessToken account) \<noteq> Is_ok ()"
      and "\<forall>d. api_refresh env (Suc (tick w)) (accessToken account) \<noteq> Is_ok d"
      and "instagramAccountId automation = accountId"
    using refused [OF that(1,2)] found aid that(3) by (simp add: process_automation_def)
  show ?thesis
    using probe refreshed stored refused skipped by blast
qed

lemma getValidTokenForAccount_paths_sample:
  "find (\<lambda>a. acc_id a = ''acc1'') (instagramAccounts ex_world) = Some ex_account
   \<and> api_me ex_env (tick ex_world) (accessToken ex_account) = Is_ok ()
   \<and> fst (getValidTokenForAccount ex_env ''acc1'' ex_world) = Some ''tok1''
   \<and> trace (snd (getValidTokenForAccount ex_env ''acc1'' ex_world)) = [Get_me ''tok1'']
   \<and> instagramAccounts (snd (getValidTokenForAccount ex_env ''acc1'' ex_world)) = [ex_account]
   \<and> api_me (ex_env\<lparr>api_me := \<lambda>n tok. Not_ok ''expired''\<rparr>) (tick ex_world)
        (accessToken ex_account) \<noteq> Is_ok ()
   \<and> api_refresh (ex_env\<lparr>api_me := \<lambda>n tok. Not_ok ''expired''\<rparr>) (Suc (tick ex_world))
        (accessToken ex_account) = Is_ok (''tok2'', 5184000)
   \<and> fst (getValidTokenForAccount (ex_env\<lparr>api_me := \<lambda>n tok. Not_ok ''expired''\<rparr>)
          ''acc1'' ex_world) = Some ''tok2''
   \<and> trace (snd (getValidTokenForAccount (ex_env\<lparr>api_me := \<lambda>n tok. Not_ok ''expired''\<rparr>)
          ''acc1'' ex_world))
       = [Get_me ''tok1'', Refresh_access_token ''tok1'',
          Update_account ''acc1'' ''tok2'' (Date 1705184002000) 1700000003000]
   \<and> instagramAccounts
        (snd (getValidTokenForAccount (ex_env\<lparr>api_me := \<lambda>n tok. Not_ok ''expired''\<rparr>)
          ''acc1'' ex_world))
       = [ex_account\<lparr>accessToken := ''tok2'', expiresAt := Some (Date 1705184002000),
            lastTokenRefresh := Some 1700000003000\<rparr>]
   \<and> (\<forall>d. api_refresh
          (ex_env\<lparr>api_me := \<lambda>n tok. Threw ''network'', api_refresh := \<lambda>n tok. Not_ok ''revoked''\<rparr>)
          (Suc (tick ex_world)) (accessToken ex_account) \<noteq> Is_ok d)
   \<and> getValidTokenForAccount
        (ex_env\<lparr>api_me := \<lambda>n tok. Threw ''network'', api_refresh := \<lambda>n tok. Not_ok ''revoked''\<rparr>)
        ''acc1'' ex_world
       = (None, ex_world\<lparr>tick := 2,
                  trace := [Get_me ''tok1'', Refresh_access_token ''tok1'']\<rparr>)
   \<and> process_automation
        (ex_env\<lparr>api_me := \<lambda>n tok. Threw ''network'', api_refresh := \<lambda>n tok. Not_ok ''revoked''\<rparr>)
        0 0 ex_automation ex_world
       = ex_world\<lparr>tick := 2, trace := [Get_me ''tok1'', Refresh_access_token ''tok1'']\<rparr>"
proof -
  define env2 where "env2 = ex_env\<lparr>api_me := \<lambda>n tok. Not_ok ''expired''\<rparr>"
  define env3 where
    "env3 = ex_env\<lparr>api_me := \<lambda>n tok. Threw ''network'', api_refresh := \<lambda>n tok. Not_ok ''revoked''\<rparr>"
  have found: "find (\<lambda>a. acc_id a = ''acc1'') (instagramAccounts ex_world) = Some ex_account"
    by (simp add: ex_world_def ex_account_def)
  have p1: "api_me ex_env (tick ex_world) (accessToken ex_account) = Is_ok ()"
    by (simp add: ex_env_def)
  have p2: "api_me env2 (tick ex_world) (accessToken ex_account) \<noteq> Is_ok ()"
    "api_refresh env2 (Suc (tick ex_world)) (accessToken ex_account) = Is_ok (''tok2'', 5184000)"
    by (simp_all add: env2_def ex_env_def)
  have p3: "api_me env3 (tick ex_world) (accessToken ex_account) \<noteq> Is_ok ()"
    "\<forall>d. api_refresh env3 (Suc (tick ex_world)) (accessToken ex_account) \<noteq> Is_ok d"
    by (simp_all add: env3_def ex_env_def)
  have own: "instagramAccountId ex_automation = ''acc1''"
    by (simp add: ex_automation_def)
  have r1: "getValidTokenForAccount ex_env ''acc1'' ex_world
          = (Some (accessToken ex_account),
             ex_world\<lparr>tick := Suc (tick ex_world),
               trace := trace ex_world @ [Get_me (accessToken ex_account)]\<rparr>)"
    using getValidTokenForAccount_paths [OF found, of ex_env] p1 by blast
  have r2: "getValidTokenForAccount env2 ''acc1'' ex_world
          = (Some ''tok2'',
             ex_world\<lparr>instagramAccounts :=
                  updateOne (\<lambda>a. acc_id a = ''acc1'')
                    (\<lambda>a. a\<lparr>accessToken := ''tok2'',
                            expiresAt := Some (setSeconds_plus env2 (clock env2 (tick ex_world + 2)) 5184000),
                            lastTokenRefresh := Some (clock env2 (tick ex_world + 3))\<rparr>)
                    (instagramAccounts ex_world),
               tick := tick ex_world + 4,
               trace := trace ex_world @
                 [Get_me (accessToken ex_account), Refresh_access_token (accessToken ex_account),
                  Update_account ''acc1'' ''tok2''
                    (setSeconds_plus env2 (clock env2 (tick ex_world + 2)) 5184000)
                    (clock env2 (tick ex_world + 3))]\<rparr>)"
    using getValidTokenForAccount_paths [OF found, of env2 "''tok2''" 5184000] p2 by blast
  have r3: "getValidTokenForAccount env3 ''acc1'' ex_world
          = (None,
             ex_world\<lparr>tick := tick ex_world + 2,
               trace := trace ex_world @
                 [Get_me (accessToken ex_account), Refresh_access_token (accessToken ex_account)]\<rparr>)"
    "process_automation env3 0 0 ex_automation ex_world
       = ex_world\<lparr>tick := tick ex_world + 2,
                   trace := trace ex_world @
                     [Get_me (accessToken ex_account),
                      Refresh_access_token (accessToken ex_account)]\<rparr>"
    using getValidTokenForAccount_paths [OF found, of env3 _ _ ex_automation 0 0] p3 own by blast+
  show ?thesis
    unfolding env2_def [symmetric] env3_def [symmetric]
    using found p1 p2 p3
    by (simp add: r1 r2 r3)
       (simp add: ex_world_def ex_account_def env2_def ex_env_def setSeconds_plus_def
          TimeClip_def)
qed



lemma setSeconds_plus_same_offset:
  assumes "localTZA env (t + localTZA env t True + 1000 * n) False = localTZA env t True"
    and "\<bar>t + 1000 * n\<bar> \<le> 8640000000000000"
  shows "setSeconds_plus env t n = Date (t + 1000 * n)"
  using assms by (simp add: setSeconds_plus_def TimeClip_def Let_def)

text \<open>
  Claim C6 asks for an expiry of the clock plus the returned lifetime. Lines 73 and 74
  compute it with \<open>setSeconds(getSeconds() + expiresIn)\<close>, on local time: on a host whose
  local offset changes between now and the expiry the stored date is shifted by that
  change. In the sample world on a host in the zone of New York, with the refresh on
  27 February 2024 and a lifetime of sixty days, the probe fails, the refresh succeeds,
  one account update is written, and the expiry stored is 1714180402000, one hour before
  the clock plus the lifetime, 1714184002000.
\<close>

theorem token_expiry_shifted_by_dst:
  "fst (getValidTokenForAccount ex_env_new_york ''acc1'' ex_world) = Some ''tok2''
   \<and> trace (snd (getValidTokenForAccount ex_env_new_york ''acc1'' ex_world))
       = [Get_me ''tok1'', Refresh_access_token ''tok1'',
          Update_account ''acc1'' ''tok2'' (Date 1714180402000) 1709000003000]
   \<and> map expiresAt
        (instagramAccounts (snd (getValidTokenForAccount ex_env_new_york ''acc1'' ex_world)))
       = [Some (Date 1714180402000)]
   \<and> clock ex_env_new_york 2 + 1000 * 5184000 = 1714184002000"
  by (simp add: ex_env_new_york_def ex_localTZA_new_york_def setSeconds_plus_def TimeClip_def
      run_defs ex_defs)

section \<open>The ledger entry of a comment reply\<close>

text \<open>
  Claim C10. When the reply request is accepted, the text that goes out is the
  automation's \<open>commentReply\<close> or, if that is absent or empty, the default text, while the
  entry appended to \<open>commentReplies\<close> stores the raw \<open>commentReply\<close> field. For an
  automation without \<open>commentReply\<close> the text sent is
  \<open>Thanks! Please check your DMs.\<close> and the entry's \<open>reply\<close> is absent.
\<close>

theorem reply_record_content:
  assumes ok: "api_reply env (tick w) (accessToken instagramAccount) (c_id cmt)
                 (or_else (commentReply automation) default_commentReply) = Is_ok ()"
  shows
    "\<exists>r. trace (reply_step env automation instagramAccount cmt w)
            = trace w @
               [Post_reply (accessToken instagramAccount) (c_id cmt)
                  (or_else (commentReply automation) default_commentReply),
                Insert_commentReply r]
         \<and> commentReplies (reply_step env automation instagramAccount cmt w)
            = commentReplies w @ [r]
         \<and> cr_reply r = commentReply automation
         \<and> cr_commentId r = c_id cmt
         \<and> (commentReply automation = None \<longrightarrow>
               or_else (commentReply automation) default_commentReply
                 = ''Thanks! Please check your DMs.''
               \<and> cr_reply r = None)"
  using ok
  by (simp add: reply_step_def replyToComment_def new_ObjectId_def new_Date_def
      insert_commentReply_def observe_def emit_def or_else_def default_commentReply_def)

theorem reply_record_content_witness:
  "commentReply ex_automation = None
   \<and> api_reply ex_env (tick ex_world) (accessToken ex_account) (c_id ex_comment)
        (or_else (commentReply ex_automation) default_commentReply) = Is_ok ()
   \<and> (\<exists>r. trace (reply_step ex_env ex_automation ex_account ex_comment ex_world)
            = [Post_reply ''tok1'' ''c1'' ''Thanks! Please check your DMs.'',
               Insert_commentReply r]
          \<and> commentReplies (reply_step ex_env ex_automation ex_account ex_comment ex_world) = [r]
          \<and> cr_reply r = None)"
proof -
  have none: "commentReply ex_automation = None"
    by (simp add: ex_automation_def)
  have ok: "api_reply ex_env (tick ex_world) (accessToken ex_account) (c_id ex_comment)
        (or_else (commentReply ex_automation) default_commentReply) = Is_ok ()"
    by (simp add: ex_env_def)
  have base: "trace ex_world = []" "commentReplies ex_world = []"
    "accessToken ex_account = ''tok1''" "c_id ex_comment = ''c1''"
    by (simp_all add: ex_world_def ex_account_def ex_comment_def of_raw_def ex_raw_def)
  show ?thesis
    using reply_record_content [OF ok] none ok by (auto simp: base)
qed

section \<open>A recipient that cannot be resolved\<close>

text \<open>
  Claim C4, as the code has it. When the lookup of the recipient's handle does not yield
  a user id (the request raises, is refused, or returns no user), the send step does
  exactly this: it issues the lookup request and no message request, and the \<open>catch\<close> of
  the send appends one ledger entry for the comment, with status \<open>failed\<close>, no kind, and
  as its error the error of the lookup (what the request raised, the refusal of the
  lookup, or "user not found"). Nothing else changes: the local sent counter, the
  automation's statistics and the comment replies written before are as they were.
\<close>

theorem lookup_failure_logged:
  assumes unresolved:
    "\<forall>rid rest. api_username_search env (tick w) (accessToken instagramAccount) (c_username cmt)
        \<noteq> Is_ok (Some (rid # rest))"
    and entry:
    "r = \<lparr>dm_id = newObjectId env (Suc (tick w)), dm_automationId = a_id automation,
          dm_recipientUsername = c_username cmt, dm_commentId = c_id cmt,
          dm_message = (if useOpeningMessage automation then openingMessage automation
                        else Some (message automation)),
          dm_type = None, dm_status = Failed,
          dm_error =
            Some (case api_username_search env (tick w) (accessToken instagramAccount)
                         (c_username cmt) of
                    Threw e \<Rightarrow> Fetch_threw e
                  | Not_ok m \<Rightarrow> Failed_to_find_user m
                  | Is_ok d \<Rightarrow> User_not_found (c_username cmt)),
          dm_sentAt = clock env (tick w + 2)\<rparr>"
  shows
    "dm_step env automation instagramAccount cmt (totalSent, w)
       = (totalSent,
          w\<lparr>directMessages := directMessages w @ [r],
            tick := tick w + 3,
            trace := trace w @
              [Username_search (accessToken instagramAccount) (c_username cmt),
               Insert_directMessage r]\<rparr>)"
proof -
  define e where "e = (case api_username_search env (tick w) (accessToken instagramAccount)
                         (c_username cmt) of
                    Threw e \<Rightarrow> Fetch_threw e
                  | Not_ok m \<Rightarrow> Failed_to_find_user m
                  | Is_ok d \<Rightarrow> User_not_found (c_username cmt))"
  have s: "username_search env (accessToken instagramAccount) (c_username cmt) w
      = (Inl e, w\<lparr>tick := Suc (tick w),
                  trace := trace w @ [Username_search (accessToken instagramAccount) (c_username cmt)]\<rparr>)"
  proof (cases "api_username_search env (tick w) (accessToken instagramAccount) (c_username cmt)")
    case (Threw x)
    then show ?thesis by (simp add: username_search_def observe_def emit_def e_def)
  next
    case (Not_ok m)
    then show ?thesis by (simp add: username_search_def observe_def emit_def e_def)
  next
    case (Is_ok d)
    show ?thesis
    proof (cases d)
      case None
      then show ?thesis
        using Is_ok by (simp add: username_search_def observe_def emit_def e_def)
    next
      case (Some ids)
      then have "ids = []"
        using unresolved Is_ok by (cases ids) auto
      then show ?thesis
        using Is_ok Some by (simp add: username_search_def observe_def emit_def e_def)
    qed
  qed
  show ?thesis
    using s unfolding entry e_def [symmetric]
    by (simp add: dm_step_def sendDirectMessage_def sendDirectMessageWithButton_def
        log_failed_def new_ObjectId_def new_Date_def insert_directMessage_def
        observe_def emit_def Let_def numeral_2_eq_2 numeral_3_eq_3)
qed

theorem lookup_failure_logged_witness:
  "(\<forall>rid rest. api_username_search ex_env_no_user (tick ex_world) (accessToken ex_account)
        (c_username ex_comment) \<noteq> Is_ok (Some (rid # rest)))
   \<and> dm_step ex_env_no_user ex_automation ex_account ex_comment (0, ex_world)
       = (0,
          ex_world\<lparr>directMessages :=
              [\<lparr>dm_id = ''o'', dm_automationId = ''auto1'',
                dm_recipientUsername = Some ''bob'', dm_commentId = ''c1'',
                dm_message = Some ''Hi!'', dm_type = None, dm_status = Failed,
                dm_error = Some (User_not_found (Some ''bob'')),
                dm_sentAt = 1700000002000\<rparr>],
            tick := 3,
            trace :=
              [Username_search ''tok1'' (Some ''bob''),
               Insert_directMessage
                 \<lparr>dm_id = ''o'', dm_automationId = ''auto1'',
                  dm_recipientUsername = Some ''bob'', dm_commentId = ''c1'',
                  dm_message = Some ''Hi!'', dm_type = None, dm_status = Failed,
                  dm_error = Some (User_not_found (Some ''bob'')),
                  dm_sentAt = 1700000002000\<rparr>]\<rparr>)"
proof -
  have h: "\<forall>rid rest. api_username_search ex_env_no_user (tick ex_world) (accessToken ex_account)
        (c_username ex_comment) \<noteq> Is_ok (Some (rid # rest))"
    by (simp add: ex_env_no_user_def)
  show ?thesis
    using h lookup_failure_logged [OF h refl, of ex_automation 0]
    by (simp add: ex_env_no_user_def of_raw_def falsy_def ex_defs)
qed

text \<open>
  The claim as the specification words it (no ledger entry for a failed lookup) does not
  hold: in the sample world with a lookup that finds nobody, the send step and the whole
  run leave one \<open>failed\<close> entry for \<open>bob\<close> in a ledger that was empty.
\<close>

theorem lookup_failure_counterexample:
  "api_username_search ex_env_no_user (tick ex_world) (accessToken ex_account)
      (c_username ex_comment) = Is_ok (Some [])
   \<and> directMessages ex_world = []
   \<and> map dm_status
        (directMessages (snd (dm_step ex_env_no_user ex_automation ex_account ex_comment
                                (0, ex_world)))) = [Failed]
   \<and> map dm_status (directMessages (snd (checkComments ex_env_no_user ex_world))) = [Failed]
   \<and> map dm_recipientUsername (directMessages (snd (checkComments ex_env_no_user ex_world)))
        = [Some ''bob'']
   \<and> map dm_error (directMessages (snd (checkComments ex_env_no_user ex_world)))
        = [Some (User_not_found (Some ''bob''))]"
  by (simp add: ex_env_no_user_def run_defs ex_defs)

section \<open>A comment fetch that fails\<close>

text \<open>
  Claim C3, as the code has it. When the request for a post's comments raises or is
  refused, \<open>getPostComments\<close> returns the empty list (it has no failure result at all),
  and \<open>processPostComments\<close> goes on as for a post without new comments: its counters are
  unchanged, and it writes the automation's \<open>lastChecked\<close>, set to the clock read after
  the fetch. The fetch request and that write are all that happens.
\<close>

theorem fetch_failure_advances_checkpoint:
  assumes fails:
    "\<forall>d. api_comments env (tick w) (accessToken instagramAccount) (post_instagramId post')
            (case lastChecked automation of None \<Rightarrow> 0 | Some t \<Rightarrow> t) \<noteq> Is_ok d"
  shows
    "getPostComments env (accessToken instagramAccount) (post_instagramId post')
        (case lastChecked automation of None \<Rightarrow> 0 | Some t \<Rightarrow> t) w
      = ([], w\<lparr>tick := Suc (tick w),
               trace := trace w @
                 [Get_comments (accessToken instagramAccount) (post_instagramId post')
                    (case lastChecked automation of None \<Rightarrow> 0 | Some t \<Rightarrow> t)]\<rparr>)
     \<and> processPostComments env post' automation instagramAccount totalProcessed totalSent w
      = ((totalProcessed, totalSent),
         w\<lparr>automations :=
              updateOne (\<lambda>x. a_id x = a_id automation)
                (\<lambda>x. x\<lparr>lastChecked := Some (clock env (Suc (tick w)))\<rparr>) (automations w),
           tick := tick w + 2,
           trace := trace w @
             [Get_comments (accessToken instagramAccount) (post_instagramId post')
                (case lastChecked automation of None \<Rightarrow> 0 | Some t \<Rightarrow> t),
              Update_lastChecked (a_id automation) (clock env (Suc (tick w)))]\<rparr>)"
proof -
  define since where "since = (case lastChecked automation of None \<Rightarrow> 0 | Some t \<Rightarrow> t)"
  have g: "getPostComments env (accessToken instagramAccount) (post_instagramId post') since w
      = ([], w\<lparr>tick := Suc (tick w),
               trace := trace w @
                 [Get_comments (accessToken instagramAccount) (post_instagramId post') since]\<rparr>)"
    using fails unfolding since_def [symmetric]
    by (cases "api_comments env (tick w) (accessToken instagramAccount) (post_instagramId post')
                 since")
       (simp_all add: getPostComments_def observe_def emit_def)
  have p: "processPostComments env post' automation instagramAccount totalProcessed totalSent w
      = ((totalProcessed, totalSent),
         w\<lparr>automations :=
              updateOne (\<lambda>x. a_id x = a_id automation)
                (\<lambda>x. x\<lparr>lastChecked := Some (clock env (Suc (tick w)))\<rparr>) (automations w),
           tick := tick w + 2,
           trace := trace w @
             [Get_comments (accessToken instagramAccount) (post_instagramId post') since,
              Update_lastChecked (a_id automation) (clock env (Suc (tick w)))]\<rparr>)"
    using g
    by (simp add: processPostComments_def since_def [symmetric] new_Date_def
        update_lastChecked_def observe_def emit_def)
  show ?thesis
    using g p unfolding since_def by blast
qed

theorem fetch_failure_advances_checkpoint_witness:
  "(\<forall>d. api_comments ex_env_fetch_fails (tick ex_world) (accessToken ex_account)
           (post_instagramId ex_post)
           (case lastChecked ex_automation of None \<Rightarrow> 0 | Some t \<Rightarrow> t) \<noteq> Is_ok d)
   \<and> getPostComments ex_env_fetch_fails (accessToken ex_account) (post_instagramId ex_post)
        (case lastChecked ex_automation of None \<Rightarrow> 0 | Some t \<Rightarrow> t) ex_world
      = ([], ex_world\<lparr>tick := 1, trace := [Get_comments ''tok1'' ''ig_post1'' 0]\<rparr>)
   \<and> processPostComments ex_env_fetch_fails ex_post ex_automation ex_account 0 0 ex_world
      = ((0, 0),
         ex_world\<lparr>automations := [ex_automation\<lparr>lastChecked := Some 1700000001000\<rparr>],
           tick := 2,
           trace := [Get_comments ''tok1'' ''ig_post1'' 0,
                     Update_lastChecked ''auto1'' 1700000001000]\<rparr>)"
proof -
  have h: "\<forall>d. api_comments ex_env_fetch_fails (tick ex_world) (accessToken ex_account)
           (post_instagramId ex_post)
           (case lastChecked ex_automation of None \<Rightarrow> 0 | Some t \<Rightarrow> t) \<noteq> Is_ok d"
    by (simp add: ex_env_fetch_fails_def)
  show ?thesis
    using h fetch_failure_advances_checkpoint [OF h, of 0 0]
    by (simp add: ex_env_fetch_fails_def ex_defs)
qed

text \<open>
  The claim as the specification words it (the checkpoint is left unchanged when the
  fetch fails) does not hold: in the sample world with a refused fetch the automation's
  \<open>lastChecked\<close>, absent before, is set by the call for the post and by the whole run.
\<close>

theorem fetch_failure_counterexample:
  "api_comments ex_env_fetch_fails (tick ex_world) (accessToken ex_account)
      (post_instagramId ex_post) 0 = Not_ok ''Invalid OAuth access token''
   \<and> fst (getPostComments ex_env_fetch_fails (accessToken ex_account)
            (post_instagramId ex_post) 0 ex_world) = []
   \<and> map lastChecked (automations ex_world) = [None]
   \<and> map lastChecked
        (automations (snd (processPostComments ex_env_fetch_fails ex_post ex_automation
                             ex_account 0 0 ex_world))) = [Some 1700000001000]
   \<and> map lastChecked (automations (snd (checkComments ex_env_fetch_fails ex_world)))
        = [Some 1700000002000]"
  by (simp add: ex_env_fetch_fails_def run_defs ex_defs)

section \<open>"Any post" automations and the checkpoint\<close>













section \<open>The counters of the run summary\<close>

text \<open>
  The summary reads the two constants of lines 115 and 116, which nothing can change: a
  run that connects reports zero comments processed and zero messages sent, whatever it
  did.
\<close>

lemma summary_counters_always_zero:
  "connect_ok env \<Longrightarrow>
     fst (checkComments env w)
       = Inr \<lparr>success = True, automationsProcessed = length (filter active (automations w)),
              commentsProcessed = 0, messagesSent = 0\<rparr>"
  by (simp add: checkComments_def Let_def)

text \<open>
  Claim C5 asks for the totals of the run in the summary. In the sample world the run
  fetches one comment and sends one message: the copies of the counters inside
  \<open>processPostComments\<close> end at 1 and 1 and the ledger holds one \<open>sent\<close> entry, while the
  summary reports \<open>commentsProcessed = 0\<close> and \<open>messagesSent = 0\<close>.
\<close>

theorem summary_counters_stay_zero:
  "fst (checkComments ex_env ex_world)
      = Inr \<lparr>success = True, automationsProcessed = 1, commentsProcessed = 0, messagesSent = 0\<rparr>
   \<and> fst (processPostComments ex_env ex_post ex_automation ex_account 0 0
            (snd (getValidTokenForAccount ex_env ''acc1'' ex_world))) = (1, 1)
   \<and> length (fst (getPostComments ex_env ''tok1'' ''ig_post1'' 0
                    (snd (getValidTokenForAccount ex_env ''acc1'' ex_world)))) = 1
   \<and> map dm_status (directMessages (snd (checkComments ex_env ex_world))) = [Sent]"
  by (simp add: run_defs ex_defs)

section \<open>The rate limit\<close>

text \<open>
  An eligible comment is one that matches the trigger and whose recipient has no ledger
  entry under the automation. For such a comment the loop body reads the clock once and
  then either stops at the rate limit or dispatches, and a dispatch always looks the
  recipient up and always appends one ledger entry.
\<close>

lemma recentDMs_window:
  "recentDMs a (now - 60 * 60 * 1000) (observe w)
     = length (sent_in_window (a_id a) now (directMessages w))"
proof -
  have "filter (\<lambda>r. dm_automationId r = a_id a \<and> now - 60 * 60 * 1000 \<le> dm_sentAt r
                       \<and> dm_status r = Sent) (directMessages w)
        = sent_in_window (a_id a) now (directMessages w)"
    unfolding sent_in_window_def by (rule filter_cong) auto
  then show ?thesis
    by (simp add: recentDMs_def observe_def)
qed

lemma process_comment_limited:
  assumes "triggerMatched env a c" and "existingDM a c w = None"
    and "rateLimit_or_10 a
           \<le> int (length (sent_in_window (a_id a) (clock env (tick w)) (directMessages w)))"
  shows "process_comment env a acct c (n, w) = (n, w\<lparr>tick := Suc (tick w)\<rparr>)"
  using assms recentDMs_window [of a "clock env (tick w)" w]
  by (simp add: process_comment_def new_Date_def Let_def) (simp add: observe_def)

lemma trace_username_search:
  "trace (snd (username_search env tok u w)) = trace w @ [Username_search tok u]"
  by (simp add: username_search_def observe_def emit_def Let_def
      split: response.split option.split list.split)

lemma attempt_sendDirectMessage:
  "\<exists>evs. trace (snd (sendDirectMessage env tok i u m w)) = trace w @ Username_search tok u # evs"
proof -
  obtain r1 w1 where s: "username_search env tok u w = (r1, w1)"
    by (cases "username_search env tok u w") blast
  have t1: "trace w1 = trace w @ [Username_search tok u]"
    using trace_username_search [of env tok u w] s by simp
  show ?thesis
  proof (cases r1)
    case (Inl e)
    then show ?thesis using s t1 by (simp add: sendDirectMessage_def)
  next
    case (Inr rid)
    obtain r2 w2 where p: "post_message env tok i rid m None w1 = (r2, w2)"
      by (cases "post_message env tok i rid m None w1") blast
    obtain evs where "trace w2 = trace w1 @ evs"
      using dispatches_post_message [OF p] by (auto simp: dispatches_def)
    then show ?thesis
      using Inr s p t1 by (simp add: sendDirectMessage_def)
  qed
qed

lemma attempt_sendDirectMessageWithButton:
  "\<exists>evs. trace (snd (sendDirectMessageWithButton env tok i u m b aid w))
           = trace w @ Username_search tok u # evs"
proof -
  obtain r1 w1 where s: "username_search env tok u w = (r1, w1)"
    by (cases "username_search env tok u w") blast
  have t1: "trace w1 = trace w @ [Username_search tok u]"
    using trace_username_search [of env tok u w] s by simp
  show ?thesis
  proof (cases r1)
    case (Inl e)
    then show ?thesis using s t1 by (simp add: sendDirectMessageWithButton_def)
  next
    case (Inr rid)
    obtain r2 w2 where
      p: "post_message env tok i rid m (Some (b, ''SEND_CONTENT_'' @ aid)) w1 = (r2, w2)"
      by (cases "post_message env tok i rid m (Some (b, ''SEND_CONTENT_'' @ aid)) w1") blast
    obtain evs where "trace w2 = trace w1 @ evs"
      using dispatches_post_message [OF p] by (auto simp: dispatches_def)
    then show ?thesis
      using Inr s p t1 by (simp add: sendDirectMessageWithButton_def)
  qed
qed

lemma attempt_dm_step:
  "\<exists>evs. trace (snd (dm_step env a acct c (n, w)))
           = trace w @ Username_search (accessToken acct) (c_username c) # evs"
proof (cases "useOpeningMessage a")
  case True
  obtain res w1 where s: "sendDirectMessageWithButton env (accessToken acct) (acc_instagramId acct)
      (c_username c) (or_else (openingMessage a) default_openingMessage)
      (or_else (buttonText a) default_buttonText) (a_id a) w = (res, w1)"
    by (cases "sendDirectMessageWithButton env (accessToken acct) (acc_instagramId acct)
      (c_username c) (or_else (openingMessage a) default_openingMessage)
      (or_else (buttonText a) default_buttonText) (a_id a) w") blast
  obtain evs where t1: "trace w1 = trace w @ Username_search (accessToken acct) (c_username c) # evs"
    using attempt_sendDirectMessageWithButton [of env "accessToken acct" "acc_instagramId acct"
        "c_username c" _ _ "a_id a" w] s
    by (metis snd_conv)
  show ?thesis
  proof (cases res)
    case (Inl e)
    obtain evs' where "trace (log_failed env a c e w1) = trace w1 @ evs'"
      using dispatches_log_failed [of w1 env a c e] by (auto simp: dispatches_def)
    then show ?thesis
      using True s Inl t1 by (simp add: dm_step_def)
  next
    case (Inr x)
    define m where "m = or_else (openingMessage a) default_openingMessage"
    have "dispatches w1 (log_sent env a c m Opening w1)"
      by (rule dispatches_log_sent)
    moreover have "dispatches (log_sent env a c m Opening w1)
        (bump_stats env a (log_sent env a c m Opening w1))"
      by (rule dispatches_bump_stats)
    ultimately have "dispatches w1 (bump_stats env a (log_sent env a c m Opening w1))"
      by (rule dispatches_trans)
    then obtain evs' where
      "trace (bump_stats env a (log_sent env a c m Opening w1)) = trace w1 @ evs'"
      by (auto simp: dispatches_def)
    then show ?thesis
      using True s Inr t1 by (simp add: dm_step_def m_def)
  qed
next
  case False
  define m where "m = (if addBranding a
                then message a @ [CHR 0x0A, CHR 0x0A]
                       @ or_else (brandingMessage a) default_brandingMessage
                else message a)"
  obtain res w1 where s: "sendDirectMessage env (accessToken acct) (acc_instagramId acct)
      (c_username c) m w = (res, w1)"
    by (cases "sendDirectMessage env (accessToken acct) (acc_instagramId acct)
      (c_username c) m w") blast
  obtain evs where t1: "trace w1 = trace w @ Username_search (accessToken acct) (c_username c) # evs"
    using attempt_sendDirectMessage [of env "accessToken acct" "acc_instagramId acct"
        "c_username c" m w] s
    by (metis snd_conv)
  show ?thesis
  proof (cases res)
    case (Inl e)
    obtain evs' where "trace (log_failed env a c e w1) = trace w1 @ evs'"
      using dispatches_log_failed [of w1 env a c e] by (auto simp: dispatches_def)
    then show ?thesis
      using False s Inl t1 by (simp add: dm_step_def m_def)
  next
    case (Inr x)
    have "dispatches w1 (log_sent env a c m Direct w1)"
      by (rule dispatches_log_sent)
    moreover have "dispatches (log_sent env a c m Direct w1)
        (bump_stats env a (log_sent env a c m Direct w1))"
      by (rule dispatches_bump_stats)
    ultimately have "dispatches w1 (bump_stats env a (log_sent env a c m Direct w1))"
      by (rule dispatches_trans)
    then obtain evs' where
      "trace (bump_stats env a (log_sent env a c m Direct w1)) = trace w1 @ evs'"
      by (auto simp: dispatches_def)
    then show ?thesis
      using False s Inr t1 by (simp add: dm_step_def m_def)
  qed
qed

lemma process_comment_dispatched:
  assumes "triggerMatched env a c" and "existingDM a c w = None"
    and "int (length (sent_in_window (a_id a) (clock env (tick w)) (directMessages w)))
           < rateLimit_or_10 a"
  shows "\<exists>r evs. directMessages (snd (process_comment env a acct c (n, w)))
                    = directMessages w @ [r]
           \<and> dm_automationId r = a_id a \<and> dm_recipientUsername r = c_username c
           \<and> trace (snd (process_comment env a acct c (n, w))) = trace w @ evs
           \<and> Username_search (accessToken acct) (c_username c) \<in> set evs"
proof -
  define w2 where "w2 = (if replyToComments a then reply_step env a acct c (observe w) else observe w)"
  have pc: "process_comment env a acct c (n, w) = dm_step env a acct c (n, w2)"
    using assms recentDMs_window [of a "clock env (tick w)" w]
    by (simp add: process_comment_def new_Date_def Let_def w2_def)
  have d2: "directMessages w2 = directMessages w"
    by (simp add: w2_def observe_def)
  have "dispatches w w2"
    using dispatches_reply_step [of "observe w" env a acct c]
    by (simp add: w2_def dispatches_def observe_def)
  then obtain evs2 where t2: "trace w2 = trace w @ evs2"
    by (auto simp: dispatches_def)
  obtain r where r: "directMessages (snd (dm_step env a acct c (n, w2))) = directMessages w2 @ [r]"
    "dm_automationId r = a_id a" "dm_recipientUsername r = c_username c"
    using dms_dm_step [of env a acct c n w2] by blast
  obtain evs where t: "trace (snd (dm_step env a acct c (n, w2)))
      = trace w2 @ Username_search (accessToken acct) (c_username c) # evs"
    using attempt_dm_step [of env a acct c n w2] by blast
  have "trace (snd (process_comment env a acct c (n, w)))
      = trace w @ (evs2 @ Username_search (accessToken acct) (c_username c) # evs)"
    using t t2 by (simp add: pc)
  moreover have "Username_search (accessToken acct) (c_username c)
      \<in> set (evs2 @ Username_search (accessToken acct) (c_username c) # evs)"
    by simp
  ultimately show ?thesis
    using r d2 pc by metis
qed

lemma ex_eligible:
  "triggerMatched ex_env (ex_automation\<lparr>rateLimit := x\<rparr>) ex_comment"
  "existingDM (ex_automation\<lparr>rateLimit := x\<rparr>) ex_comment ex_world = None"
  "existingDM (ex_automation\<lparr>rateLimit := x\<rparr>) ex_comment ex_world_ten_sent = None"
  "length (sent_in_window (a_id (ex_automation\<lparr>rateLimit := x\<rparr>)) (clock ex_env (tick ex_world))
             (directMessages ex_world)) = 0"
  "length (sent_in_window (a_id (ex_automation\<lparr>rateLimit := x\<rparr>))
             (clock ex_env (tick ex_world_ten_sent)) (directMessages ex_world_ten_sent)) = 10"
  by (simp_all add: triggerMatched_def existingDM_def sent_in_window_def ex_world_ten_sent_def
      ex_sent_def of_raw_def falsy_def ex_defs)

lemma ex_eligible_one_sent:
  "existingDM (ex_automation\<lparr>rateLimit := x\<rparr>) ex_comment ex_world_one_sent = None"
  "length (sent_in_window (a_id (ex_automation\<lparr>rateLimit := x\<rparr>))
             (clock ex_env (tick ex_world_one_sent)) (directMessages ex_world_one_sent)) = 1"
  by (simp_all add: existingDM_def sent_in_window_def ex_world_one_sent_def
      ex_sent_def of_raw_def falsy_def ex_defs)

text \<open>
  Claim C7. For an eligible comment the count that decides is the number of ledger
  entries of the automation with status \<open>sent\<close> and an age of at most sixty minutes at the
  clock read for this comment. The ceiling \<open>k\<close> in force is the automation's stored
  \<open>rateLimit\<close> when that is a number other than 0, and 10 when it is absent or 0. Below
  the ceiling the comment is dispatched (the recipient is looked up and one ledger entry
  is appended); at or above it nothing happens but the clock read: no entry, no reply, no
  request. In particular with a limit of 10 and 10 such entries the next eligible comment
  produces no entry and no send attempt.
\<close>

theorem rate_limit_gate:
  assumes matched: "triggerMatched env automation cmt"
    and fresh: "existingDM automation cmt w = None"
    and ceiling: "rateLimit automation = Some k \<and> k \<noteq> 0
                  \<or> (rateLimit automation = None \<or> rateLimit automation = Some 0) \<and> k = 10"
  shows
    "(int (length (sent_in_window (a_id automation) (clock env (tick w)) (directMessages w)))
        < k \<longrightarrow>
        (\<exists>r evs. directMessages (snd (process_comment env automation instagramAccount cmt
                                        (totalSent, w))) = directMessages w @ [r]
           \<and> dm_automationId r = a_id automation \<and> dm_recipientUsername r = c_username cmt
           \<and> trace (snd (process_comment env automation instagramAccount cmt (totalSent, w)))
               = trace w @ evs
           \<and> Username_search (accessToken instagramAccount) (c_username cmt) \<in> set evs))
     \<and> (k \<le> int (length (sent_in_window (a_id automation) (clock env (tick w))
                          (directMessages w))) \<longrightarrow>
        process_comment env automation instagramAccount cmt (totalSent, w)
          = (totalSent, w\<lparr>tick := Suc (tick w)\<rparr>))
     \<and> (rateLimit automation = Some 10
          \<and> length (sent_in_window (a_id automation) (clock env (tick w)) (directMessages w))
              = 10 \<longrightarrow>
        process_comment env automation instagramAccount cmt (totalSent, w)
          = (totalSent, w\<lparr>tick := Suc (tick w)\<rparr>))"
proof -
  have k: "rateLimit_or_10 automation = k"
    using ceiling by (auto simp: rateLimit_or_10_def)
  have ten: "rateLimit_or_10 automation = 10" if "rateLimit automation = Some 10"
    using that by (simp add: rateLimit_or_10_def)
  show ?thesis
  proof (intro conjI impI)
    assume "int (length (sent_in_window (a_id automation) (clock env (tick w)) (directMessages w)))
        < k"
    then have "int (length (sent_in_window (a_id automation) (clock env (tick w))
        (directMessages w))) < rateLimit_or_10 automation"
      by (simp add: k)
    then show "\<exists>r evs. directMessages (snd (process_comment env automation instagramAccount cmt
                                        (totalSent, w))) = directMessages w @ [r]
           \<and> dm_automationId r = a_id automation \<and> dm_recipientUsername r = c_username cmt
           \<and> trace (snd (process_comment env automation instagramAccount cmt (totalSent, w)))
               = trace w @ evs
           \<and> Username_search (accessToken instagramAccount) (c_username cmt) \<in> set evs"
      using matched fresh by (rule process_comment_dispatched [rotated 2])
  next
    assume "k \<le> int (length (sent_in_window (a_id automation) (clock env (tick w))
                          (directMessages w)))"
    then have "rateLimit_or_10 automation
          \<le> int (length (sent_in_window (a_id automation) (clock env (tick w))
                          (directMessages w)))"
      by (simp add: k)
    then show "process_comment env automation instagramAccount cmt (totalSent, w)
          = (totalSent, w\<lparr>tick := Suc (tick w)\<rparr>)"
      using matched fresh by (rule process_comment_limited [rotated 2])
  next
    assume a: "rateLimit automation = Some 10
          \<and> length (sent_in_window (a_id automation) (clock env (tick w)) (directMessages w))
              = 10"
    then have "rateLimit_or_10 automation
          \<le> int (length (sent_in_window (a_id automation) (clock env (tick w))
                          (directMessages w)))"
      using ten by simp
    then show "process_comment env automation instagramAccount cmt (totalSent, w)
          = (totalSent, w\<lparr>tick := Suc (tick w)\<rparr>)"
      using matched fresh by (rule process_comment_limited [rotated 2])
  qed
qed

theorem rate_limit_gate_witness:
  "triggerMatched ex_env ex_automation ex_comment
   \<and> existingDM ex_automation ex_comment ex_world = None
   \<and> existingDM ex_automation ex_comment ex_world_ten_sent = None
   \<and> rateLimit ex_automation = Some 10
   \<and> length (sent_in_window ''auto1'' (clock ex_env (tick ex_world)) (directMessages ex_world)) = 0
   \<and> (\<exists>r evs. directMessages (snd (process_comment ex_env ex_automation ex_account ex_comment
                                      (0, ex_world))) = directMessages ex_world @ [r]
           \<and> dm_recipientUsername r = Some ''bob''
           \<and> trace (snd (process_comment ex_env ex_automation ex_account ex_comment (0, ex_world)))
               = trace ex_world @ evs
           \<and> Username_search ''tok1'' (Some ''bob'') \<in> set evs)
   \<and> length (sent_in_window ''auto1'' (clock ex_env (tick ex_world_ten_sent))
               (directMessages ex_world_ten_sent)) = 10
   \<and> process_comment ex_env ex_automation ex_account ex_comment (0, ex_world_ten_sent)
       = (0, ex_world_ten_sent\<lparr>tick := 1\<rparr>)
   \<and> rateLimit (ex_automation\<lparr>rateLimit := Some 1\<rparr>) = Some 1
   \<and> triggerMatched ex_env (ex_automation\<lparr>rateLimit := Some 1\<rparr>) ex_comment
   \<and> existingDM (ex_automation\<lparr>rateLimit := Some 1\<rparr>) ex_comment ex_world_one_sent = None
   \<and> length (sent_in_window ''auto1'' (clock ex_env (tick ex_world_one_sent))
               (directMessages ex_world_one_sent)) = 1
   \<and> process_comment ex_env (ex_automation\<lparr>rateLimit := Some 1\<rparr>) ex_account ex_comment
        (0, ex_world_one_sent) = (0, ex_world_one_sent\<lparr>tick := 1\<rparr>)"
proof -
  have same: "ex_automation\<lparr>rateLimit := Some 10\<rparr> = ex_automation"
    by (simp add: ex_automation_def)
  note el = ex_eligible [of "Some 10", unfolded same]
  note e1 = ex_eligible(1) [of "Some 1"] ex_eligible_one_sent [of "Some 1"]
  have ids: "a_id (ex_automation\<lparr>rateLimit := x\<rparr>) = ''auto1''"
    "a_id ex_automation = ''auto1''" "rateLimit ex_automation = Some 10"
    "accessToken ex_account = ''tok1''"
    "c_username ex_comment = Some ''bob''" "tick ex_world_ten_sent = 0"
    "tick ex_world_one_sent = 0" for x
    by (simp_all add: ex_world_ten_sent_def ex_world_one_sent_def of_raw_def falsy_def ex_defs)
  have c10: "rateLimit ex_automation = Some 10 \<and> (10::int) \<noteq> 0
      \<or> (rateLimit ex_automation = None \<or> rateLimit ex_automation = Some 0) \<and> (10::int) = 10"
    by (simp add: ids)
  have c1: "rateLimit (ex_automation\<lparr>rateLimit := Some 1\<rparr>) = Some 1 \<and> (1::int) \<noteq> 0
      \<or> (rateLimit (ex_automation\<lparr>rateLimit := Some 1\<rparr>) = None
          \<or> rateLimit (ex_automation\<lparr>rateLimit := Some 1\<rparr>) = Some 0) \<and> (1::int) = 10"
    by simp
  note g1 = rate_limit_gate [OF el(1) el(2) c10, of ex_account 0]
  note g2 = rate_limit_gate [OF el(1) el(3) c10, of ex_account 0]
  note g3 = rate_limit_gate [OF e1(1) e1(2) c1, of ex_account 0]
  have open_gate: "\<exists>r evs. directMessages (snd (process_comment ex_env ex_automation ex_account
                     ex_comment (0, ex_world))) = directMessages ex_world @ [r]
           \<and> dm_recipientUsername r = Some ''bob''
           \<and> trace (snd (process_comment ex_env ex_automation ex_account ex_comment (0, ex_world)))
               = trace ex_world @ evs
           \<and> Username_search ''tok1'' (Some ''bob'') \<in> set evs"
    using g1 el(4) by (simp add: ids) blast
  have closed_gate: "process_comment ex_env ex_automation ex_account ex_comment
        (0, ex_world_ten_sent) = (0, ex_world_ten_sent\<lparr>tick := 1\<rparr>)"
    using g2 el(5) by (simp add: ids)
  have closed_at_one: "process_comment ex_env (ex_automation\<lparr>rateLimit := Some 1\<rparr>) ex_account
        ex_comment (0, ex_world_one_sent) = (0, ex_world_one_sent\<lparr>tick := 1\<rparr>)"
    using g3 e1(3) by (simp add: ids)
  show ?thesis
    using el e1 open_gate closed_gate closed_at_one by (simp add: ids)
qed

text \<open>
  Claim C9. When the automation's \<open>rateLimit\<close> is absent or is 0, the ceiling in force is
  10: an eligible comment is dispatched while fewer than 10 messages were sent in the
  last sixty minutes, and is stopped from the tenth on. A stored limit of 0 therefore
  does not block every send.
\<close>

theorem zero_rate_limit_means_ten:
  assumes unset: "rateLimit automation = None \<or> rateLimit automation = Some 0"
    and matched: "triggerMatched env automation cmt"
    and fresh: "existingDM automation cmt w = None"
  shows
    "rateLimit_or_10 automation = 10
     \<and> (length (sent_in_window (a_id automation) (clock env (tick w)) (directMessages w)) < 10
          \<longrightarrow>
        (\<exists>r evs. directMessages (snd (process_comment env automation instagramAccount cmt
                                        (totalSent, w))) = directMessages w @ [r]
           \<and> dm_automationId r = a_id automation \<and> dm_recipientUsername r = c_username cmt
           \<and> trace (snd (process_comment env automation instagramAccount cmt (totalSent, w)))
               = trace w @ evs
           \<and> Username_search (accessToken instagramAccount) (c_username cmt) \<in> set evs))
     \<and> (10 \<le> length (sent_in_window (a_id automation) (clock env (tick w)) (directMessages w))
          \<longrightarrow>
        process_comment env automation instagramAccount cmt (totalSent, w)
          = (totalSent, w\<lparr>tick := Suc (tick w)\<rparr>))"
proof -
  have ten: "rateLimit_or_10 automation = 10"
    using unset by (auto simp: rateLimit_or_10_def)
  show ?thesis
    using ten process_comment_dispatched [OF matched fresh, of instagramAccount totalSent]
      process_comment_limited [OF matched fresh, of instagramAccount totalSent]
    by simp
qed

theorem zero_rate_limit_means_ten_witness:
  "rateLimit (ex_automation\<lparr>rateLimit := Some 0\<rparr>) = Some 0
   \<and> triggerMatched ex_env (ex_automation\<lparr>rateLimit := Some 0\<rparr>) ex_comment
   \<and> existingDM (ex_automation\<lparr>rateLimit := Some 0\<rparr>) ex_comment ex_world = None
   \<and> rateLimit_or_10 (ex_automation\<lparr>rateLimit := Some 0\<rparr>) = 10
   \<and> length (sent_in_window ''auto1'' (clock ex_env (tick ex_world)) (directMessages ex_world)) < 10
   \<and> (\<exists>r evs. directMessages (snd (process_comment ex_env (ex_automation\<lparr>rateLimit := Some 0\<rparr>)
                                      ex_account ex_comment (0, ex_world)))
                  = directMessages ex_world @ [r]
           \<and> dm_recipientUsername r = Some ''bob''
           \<and> trace (snd (process_comment ex_env (ex_automation\<lparr>rateLimit := Some 0\<rparr>)
                            ex_account ex_comment (0, ex_world)))
               = trace ex_world @ evs
           \<and> Username_search ''tok1'' (Some ''bob'') \<in> set evs)
   \<and> 10 \<le> length (sent_in_window ''auto1'' (clock ex_env (tick ex_world_ten_sent))
                    (directMessages ex_world_ten_sent))
   \<and> process_comment ex_env (ex_automation\<lparr>rateLimit := None\<rparr>) ex_account ex_comment
        (0, ex_world_ten_sent) = (0, ex_world_ten_sent\<lparr>tick := 1\<rparr>)"
proof -
  note z = ex_eligible [of "Some 0"]
  note u = ex_eligible [of None]
  have ids: "a_id (ex_automation\<lparr>rateLimit := x\<rparr>) = ''auto1''"
    "accessToken ex_account = ''tok1''"
    "c_username ex_comment = Some ''bob''" "tick ex_world_ten_sent = 0" for x
    by (simp_all add: ex_world_ten_sent_def of_raw_def falsy_def ex_defs)
  have unset0: "rateLimit (ex_automation\<lparr>rateLimit := Some 0\<rparr>) = None
      \<or> rateLimit (ex_automation\<lparr>rateLimit := Some 0\<rparr>) = Some 0"
    by simp
  have unsetN: "rateLimit (ex_automation\<lparr>rateLimit := None\<rparr>) = None
      \<or> rateLimit (ex_automation\<lparr>rateLimit := None\<rparr>) = Some 0"
    by simp
  note g1 = zero_rate_limit_means_ten [OF unset0 z(1) z(2), of ex_account 0]
  note g2 = zero_rate_limit_means_ten [OF unsetN u(1) u(3), of ex_account 0]
  have ten: "rateLimit_or_10 (ex_automation\<lparr>rateLimit := Some 0\<rparr>) = 10"
    using g1 by blast
  have open_gate: "\<exists>r evs. directMessages (snd (process_comment ex_env
                     (ex_automation\<lparr>rateLimit := Some 0\<rparr>) ex_account ex_comment (0, ex_world)))
                  = directMessages ex_world @ [r]
           \<and> dm_recipientUsername r = Some ''bob''
           \<and> trace (snd (process_comment ex_env (ex_automation\<lparr>rateLimit := Some 0\<rparr>)
                            ex_account ex_comment (0, ex_world)))
               = trace ex_world @ evs
           \<and> Username_search ''tok1'' (Some ''bob'') \<in> set evs"
    using g1 z(4) by (simp add: ids) blast
  have closed_gate: "process_comment ex_env (ex_automation\<lparr>rateLimit := None\<rparr>) ex_account
        ex_comment (0, ex_world_ten_sent) = (0, ex_world_ten_sent\<lparr>tick := 1\<rparr>)"
    using g2 u(5) by (simp add: ids)
  show ?thesis
    using z u ten open_gate closed_gate by (simp add: ids)
qed

end
